theory Spec2Isabelle
  imports Complex_Main "HOL-Library.AList"
begin

section \<open>Data model (database/models.py, core/race\_simulation.py)\<close>

text \<open>
  The dataclasses of \<^verbatim>\<open>database/models.py\<close>, with the fields the race engine reads.
  Python ints are \<open>int\<close>. A Python float is an IEEE binary64 value; it is modelled by
  the real number it denotes (not-a-number and the infinities are outside the model), and
  the arithmetic on floats is modelled in the section on floating-point arithmetic below.
  The string-valued
  fields \<^verbatim>\<open>tier\<close> and \<^verbatim>\<open>surface_type\<close> stay strings, because the engine branches
  on them with an \<^verbatim>\<open>else\<close> that catches every other value.
\<close>

record Driver =
  d_id :: int
  d_skill :: real
  d_consistency :: real
  d_aggression :: real
  d_racecraft :: real
  d_adaptability :: real
  d_current_team_id :: "int option"

record Team =
  t_id :: int
  t_tier :: string
  t_budget :: real

record Track =
  tr_id :: int
  tr_surface_type :: string
  tr_difficulty :: real
  tr_weather_impact :: real
  tr_overtaking_difficulty :: real

record Race =
  rc_id :: int

record RaceResult =
  r_id :: int
  r_race_id :: int
  r_driver_id :: int
  r_team_id :: "int option"
  r_position :: int
  r_points :: int
  r_fastest_lap :: bool
  r_dnf_reason :: "string option"
  r_grid_position :: int

text \<open>
  \<^verbatim>\<open>SimulationContext\<close> declares six fields. \<^verbatim>\<open>_generate_race_results\<close> also reads an
  attribute \<^verbatim>\<open>context.race_state\<close>, which is not a declared field and which no code of
  the repository sets: \<open>race_state_attr\<close> is \<open>None\<close> for a context as the dataclass
  constructor builds it (reading the attribute raises \<^verbatim>\<open>AttributeError\<close>), and
  \<open>Some rs\<close> when a caller attached a dictionary \<open>rs\<close> to the object.
\<close>

record SimulationContext =
  race :: Race
  track :: Track
  drivers :: "Driver list"
  teams :: "int \<rightharpoonup> Team"
  weather_factor :: real
  tire_degradation :: real
  race_state_attr :: "(string \<rightharpoonup> (int \<rightharpoonup> int)) option"

text \<open>The dictionary \<^verbatim>\<open>state\<close> built by \<^verbatim>\<open>_initialize_race_state\<close>.\<close>

record RaceState =
  grid_positions :: "int \<rightharpoonup> int"
  car_performance :: "int \<rightharpoonup> real"
  driver_form :: "int \<rightharpoonup> real"

datatype error = AttributeError | KeyError | IndexError | ValueError

section \<open>Floating-point arithmetic\<close>

text \<open>
  Each arithmetic operation of Python on floats returns the exact result rounded to a
  binary64 value. The rounding function \<open>rnd\<close> is a parameter of every function that
  computes with floats: \<^verbatim>\<open>a + b\<close> is \<open>rnd (a + b)\<close>, in the order in which Python evaluates
  the expression. A decimal literal that binary64 does not represent exactly is the
  rounded value, \<^verbatim>\<open>0.8\<close> is \<open>rnd 0.8\<close>; the literals that binary64 represents exactly
  (0, 0.5, 1.0, 2.0, 3.0, 80.0, 100.0, 150.0, 400.0) are written as they are.
  Comparisons, \<^verbatim>\<open>min\<close> and \<^verbatim>\<open>max\<close> do not round. With the identity for \<open>rnd\<close> the
  functions compute in exact arithmetic.

  \<open>rounding rnd\<close> collects what the theorems below use of rounding to nearest: it is
  monotone, it leaves a value it has produced unchanged, and 0 and 1 are representable.
\<close>

definition rounding :: "(real \<Rightarrow> real) \<Rightarrow> bool" where
  "rounding rnd \<longleftrightarrow>
     (\<forall>x y. x \<le> y \<longrightarrow> rnd x \<le> rnd y) \<and> (\<forall>x. rnd (rnd x) = rnd x) \<and> rnd 0 = 0 \<and> rnd 1 = 1"

section \<open>Random streams\<close>

text \<open>
  A numpy \<^verbatim>\<open>RandomState\<close> is modelled by the stream of standard normal deviates it will
  yield; \<^verbatim>\<open>rng.normal(loc, scale)\<close> takes the next deviate \<open>z\<close> and returns
  \<open>loc + scale * z\<close>, computed in floats (numpy's sampler, not code of the repository). The generator of the
  module \<^verbatim>\<open>random\<close> is modelled by the stream of raw draws it will yield;
  \<^verbatim>\<open>random.choice(seq)\<close> takes the next draw and reduces it to an index below
  \<^verbatim>\<open>len(seq)\<close>.
\<close>

type_synonym np_rng = "nat \<Rightarrow> real"
type_synonym py_random = "nat \<Rightarrow> nat"

definition rng_normal :: "(real \<Rightarrow> real) \<Rightarrow> real \<Rightarrow> real \<Rightarrow> np_rng \<Rightarrow> real \<times> np_rng" where
  "rng_normal rnd loc scale g = (rnd (loc + rnd (scale * g 0)), \<lambda>i. g (Suc i))"

definition random_choice :: "nat \<Rightarrow> py_random \<Rightarrow> nat \<times> py_random" where
  "random_choice n g = (g 0 mod n, \<lambda>i. g (Suc i))"

text \<open>
  The state of the process that the engine reads and writes. The generator of the module
  \<^verbatim>\<open>random\<close> exists once and is shared by every simulator and by all other code of the
  process. Each \<^verbatim>\<open>RaceSimulator\<close> object has a \<^verbatim>\<open>RandomState\<close> of its own: \<open>rng_of w self\<close>
  is \<^verbatim>\<open>self.rng\<close> of the object \<open>self\<close>; \<open>next_object\<close> is the next unused object identity.
\<close>

record world =
  module_random :: py_random
  rng_of :: "nat \<Rightarrow> np_rng"
  next_object :: nat


section \<open>Performance model\<close>

definition calculate_team_performance :: "(real \<Rightarrow> real) \<Rightarrow> Team \<Rightarrow> real" where
  "calculate_team_performance rnd team =
     (let base_performance =
        (if t_tier team = ''tier1''
         then rnd (rnd 0.8 + rnd (rnd (t_budget team / 400.0) * rnd 0.2))
         else if t_tier team = ''tier2''
         then rnd (rnd 0.6 + rnd (rnd (t_budget team / 150.0) * rnd 0.2))
         else rnd (rnd 0.4 + rnd (rnd (t_budget team / 80.0) * rnd 0.2)))
      in min base_performance 1.0)"

definition calculate_driver_form :: "(real \<Rightarrow> real) \<Rightarrow> Driver \<Rightarrow> np_rng \<Rightarrow> real \<times> np_rng" where
  "calculate_driver_form rnd driver g =
     (let base_form = rnd (rnd (rnd (d_skill driver + d_consistency driver) + d_racecraft driver) / 3.0);
          (form_variation, g') = rng_normal rnd 0 (rnd 0.05) g
      in (max (rnd 0.1) (min 1.0 (rnd (base_form + form_variation))), g'))"

text \<open>
  \<^verbatim>\<open>context.teams.get(driver.current_team_id)\<close>: the dictionary has integer keys, so the
  key \<^verbatim>\<open>None\<close> is never found. A \<^verbatim>\<open>Team\<close> object is always truthy, so \<^verbatim>\<open>not team\<close>
  holds exactly when the lookup gave \<^verbatim>\<open>None\<close>.
\<close>

definition teams_get :: "SimulationContext \<Rightarrow> int option \<Rightarrow> Team option" where
  "teams_get context team_id = (case team_id of None \<Rightarrow> None | Some k \<Rightarrow> teams context k)"

definition qualifying_time :: "(real \<Rightarrow> real) \<Rightarrow> SimulationContext \<Rightarrow> Driver \<Rightarrow> Team \<Rightarrow> real" where
  "qualifying_time rnd context driver team =
     (let base_time = 100.0;
          driver_factor = rnd (rnd (rnd (d_skill driver * rnd 0.4) + rnd (d_consistency driver * rnd 0.3))
                               + rnd (d_racecraft driver * rnd 0.3));
          team_factor = calculate_team_performance rnd team;
          track_factor = rnd (1.0 - rnd (rnd (tr_difficulty (track context) * d_adaptability driver)
                                          * rnd 0.1))
      in rnd (rnd (rnd (base_time * rnd (2.0 - driver_factor)) * rnd (2.0 - team_factor))
              * track_factor))"

text \<open>
  The first loop of \<^verbatim>\<open>_initialize_race_state\<close>. The dictionary \<^verbatim>\<open>qualifying_times\<close> is
  an association list in insertion order: assigning to a key that is present replaces
  the value in place, a new key goes to the end (\<open>AList.update\<close>).
\<close>

fun qualifying_loop ::
  "(real \<Rightarrow> real) \<Rightarrow> SimulationContext \<Rightarrow> Driver list \<Rightarrow> (int \<times> real) list \<Rightarrow> (int \<times> real) list" where
  "qualifying_loop rnd context [] qualifying_times = qualifying_times"
| "qualifying_loop rnd context (driver # rest) qualifying_times =
     (case teams_get context (d_current_team_id driver) of
        None \<Rightarrow> qualifying_loop rnd context rest qualifying_times
      | Some team \<Rightarrow>
          qualifying_loop rnd context rest
            (AList.update (d_id driver) (qualifying_time rnd context driver team) qualifying_times))"

text \<open>
  \<^verbatim>\<open>sorted(qualifying_times.items(), key=lambda x: x[1])\<close> is a stable ascending sort;
  \<^verbatim>\<open>enumerate(sorted_drivers, 1)\<close> numbers the entries from 1.
\<close>

definition assign_grid :: "(int \<times> real) list \<Rightarrow> (int \<rightharpoonup> int)" where
  "assign_grid sorted_drivers =
     fold (\<lambda>(position, (driver_id, _)) grid. grid(driver_id \<mapsto> int position))
          (List.enumerate 1 sorted_drivers) Map.empty"

fun performance_loop ::
  "(real \<Rightarrow> real) \<Rightarrow> SimulationContext \<Rightarrow> Driver list \<Rightarrow> RaceState \<Rightarrow> np_rng \<Rightarrow> RaceState \<times> np_rng" where
  "performance_loop rnd context [] state g = (state, g)"
| "performance_loop rnd context (driver # rest) state g =
     (case teams_get context (d_current_team_id driver) of
        None \<Rightarrow> performance_loop rnd context rest state g
      | Some team \<Rightarrow>
          (let (form, g') = calculate_driver_form rnd driver g
           in performance_loop rnd context rest
                (state\<lparr>car_performance := (car_performance state)(d_id driver \<mapsto> calculate_team_performance rnd team),
                       driver_form := (driver_form state)(d_id driver \<mapsto> form)\<rparr>) g'))"

definition initialize_race_state :: "(real \<Rightarrow> real) \<Rightarrow> SimulationContext \<Rightarrow> np_rng \<Rightarrow> RaceState \<times> np_rng" where
  "initialize_race_state rnd context g =
     (let qualifying_times = qualifying_loop rnd context (drivers context) [];
          sorted_drivers = sort_key snd qualifying_times;
          state = \<lparr>grid_positions = assign_grid sorted_drivers,
                   car_performance = Map.empty, driver_form = Map.empty\<rparr>
      in performance_loop rnd context (drivers context) state g)"

section \<open>Monte Carlo iterator\<close>

definition calculate_weather_impact :: "(real \<Rightarrow> real) \<Rightarrow> Driver \<Rightarrow> SimulationContext \<Rightarrow> real" where
  "calculate_weather_impact rnd driver context =
     (if weather_factor context = 1.0 then 1.0
      else (let wet_skill = rnd (rnd (d_adaptability driver * rnd 0.6) + rnd (d_skill driver * rnd 0.4))
            in rnd (rnd 0.8 + rnd (wet_skill * rnd 0.2))))"

definition calculate_track_suitability :: "(real \<Rightarrow> real) \<Rightarrow> Driver \<Rightarrow> Track \<Rightarrow> real" where
  "calculate_track_suitability rnd driver trk =
     (let suitability =
        (if tr_surface_type trk = ''tarmac''
         then rnd (rnd (rnd (d_skill driver * 0.5) + rnd (d_racecraft driver * rnd 0.3))
                   + rnd (d_consistency driver * rnd 0.2))
         else if tr_surface_type trk = ''gravel''
         then rnd (rnd (rnd (d_adaptability driver * 0.5) + rnd (d_skill driver * rnd 0.3))
                   + rnd (d_aggression driver * rnd 0.2))
         else rnd (rnd (rnd (d_adaptability driver * rnd 0.4) + rnd (d_skill driver * rnd 0.3))
                   + rnd (d_racecraft driver * rnd 0.3)));
          difficulty_factor =
            rnd (1.0 - rnd (rnd (tr_difficulty trk * rnd (1.0 - d_adaptability driver)) * rnd 0.2))
      in rnd (suitability * difficulty_factor))"

definition simulate_strategy_impact :: "(real \<Rightarrow> real) \<Rightarrow> Driver \<Rightarrow> SimulationContext \<Rightarrow> real" where
  "simulate_strategy_impact rnd driver context =
     (case teams_get context (d_current_team_id driver) of
        None \<Rightarrow> 0.5
      | Some team \<Rightarrow>
          (let strategy_quality = rnd (0.5 + rnd (calculate_team_performance rnd team * rnd 0.3));
               execution_quality = d_racecraft driver
           in rnd (rnd (strategy_quality + execution_quality) / 2.0)))"

text \<open>The expression \<^verbatim>\<open>total_performance\<close> in the body of the trial loop.\<close>

definition total_performance ::
  "(real \<Rightarrow> real) \<Rightarrow> SimulationContext \<Rightarrow> Driver \<Rightarrow> real \<Rightarrow> real \<Rightarrow> real \<Rightarrow> real" where
  "total_performance rnd context driver base_performance driver_performance luck_factor =
     (let weather_impact = calculate_weather_impact rnd driver context;
          track_suitability = calculate_track_suitability rnd driver (track context);
          strategy_impact = simulate_strategy_impact rnd driver context
      in rnd (rnd (rnd (rnd (rnd (rnd (base_performance * rnd 0.4) + rnd (driver_performance * rnd 0.3))
                             + rnd (weather_impact * rnd 0.1))
                        + rnd (track_suitability * rnd 0.1))
                   + rnd (strategy_impact * rnd 0.1))
              * luck_factor))"

text \<open>
  The \<^verbatim>\<open>for driver in context.drivers\<close> loop of \<^verbatim>\<open>_simulate_single_race_iteration\<close>.
  A driver missing from \<^verbatim>\<open>car_performance\<close> is skipped; the two dictionary reads come
  before the draw, and a key missing from \<^verbatim>\<open>driver_form\<close> raises \<^verbatim>\<open>KeyError\<close>. An
  exception ends the call: the generator state after a failed call is not part of the
  result.
\<close>

fun race_performance_loop ::
  "(real \<Rightarrow> real) \<Rightarrow> SimulationContext \<Rightarrow> RaceState \<Rightarrow> Driver list \<Rightarrow> (int \<times> real) list \<Rightarrow> np_rng
     \<Rightarrow> error + ((int \<times> real) list \<times> np_rng)" where
  "race_performance_loop rnd context state [] race_performance g = Inr (race_performance, g)"
| "race_performance_loop rnd context state (driver # rest) race_performance g =
     (case car_performance state (d_id driver) of
        None \<Rightarrow> race_performance_loop rnd context state rest race_performance g
      | Some base_performance \<Rightarrow>
          (case driver_form state (d_id driver) of
             None \<Rightarrow> Inl KeyError
           | Some driver_performance \<Rightarrow>
               (let (luck_factor, g') = rng_normal rnd 1.0 (rnd 0.1) g
                in race_performance_loop rnd context state rest
                     (AList.update (d_id driver)
                        (total_performance rnd context driver base_performance driver_performance luck_factor)
                        race_performance) g')))"

text \<open>
  \<^verbatim>\<open>sorted(..., key=lambda x: x[1], reverse=True)\<close> keeps entries with equal keys in
  their original order, as the stable sort by the negated key does (negating a float is
  exact). The scores compared are the rounded ones.
\<close>

definition simulate_single_race_iteration ::
  "(real \<Rightarrow> real) \<Rightarrow> SimulationContext \<Rightarrow> RaceState \<Rightarrow> np_rng \<Rightarrow> error + ((int \<times> int) list \<times> np_rng)" where
  "simulate_single_race_iteration rnd context state g =
     (case race_performance_loop rnd context state (drivers context) [] g of
        Inl e \<Rightarrow> Inl e
      | Inr (race_performance, g') \<Rightarrow>
          (let sorted_performance = sort_key (\<lambda>x. - snd x) race_performance;
               positions = map (\<lambda>(position, (driver_id, _)). (driver_id, int position))
                               (List.enumerate 1 sorted_performance)
           in Inr (positions, g')))"

text \<open>
  The counting loop over \<^verbatim>\<open>race_outcome.items()\<close>. Every histogram has
  \<^verbatim>\<open>len(context.drivers)\<close> entries, so the guarded index \<^verbatim>\<open>position - 1\<close> is in range.
\<close>

fun count_positions ::
  "nat \<Rightarrow> (int \<times> int) list \<Rightarrow> (int \<times> nat list) list \<Rightarrow> error + (int \<times> nat list) list" where
  "count_positions n [] position_counts = Inr position_counts"
| "count_positions n ((driver_id, position) # rest) position_counts =
     (if 1 \<le> position \<and> position \<le> int n then
        (case map_of position_counts driver_id of
           None \<Rightarrow> Inl KeyError
         | Some counts \<Rightarrow>
             count_positions n rest
               (AList.update driver_id
                  (counts[nat (position - 1) := counts ! nat (position - 1) + 1])
                  position_counts))
      else count_positions n rest position_counts)"

definition MONTE_CARLO_ITERATIONS :: nat where
  "MONTE_CARLO_ITERATIONS = 1000"

fun monte_carlo_loop ::
  "(real \<Rightarrow> real) \<Rightarrow> SimulationContext \<Rightarrow> RaceState \<Rightarrow> nat \<Rightarrow> (int \<times> nat list) list \<Rightarrow> np_rng
     \<Rightarrow> error + ((int \<times> nat list) list \<times> np_rng)" where
  "monte_carlo_loop rnd context state 0 position_counts g = Inr (position_counts, g)"
| "monte_carlo_loop rnd context state (Suc k) position_counts g =
     (case simulate_single_race_iteration rnd context state g of
        Inl e \<Rightarrow> Inl e
      | Inr (race_outcome, g') \<Rightarrow>
          (case count_positions (length (drivers context)) race_outcome position_counts of
             Inl e \<Rightarrow> Inl e
           | Inr position_counts' \<Rightarrow> monte_carlo_loop rnd context state k position_counts' g'))"

text \<open>\<^verbatim>\<open>np.argmax\<close>: the first index of the maximum; an empty sequence raises.\<close>

definition argmax :: "nat list \<Rightarrow> error + nat" where
  "argmax counts =
     (if counts = [] then Inl ValueError
      else Inr (length (takeWhile (\<lambda>c. c \<noteq> fold max counts 0) counts)))"

fun most_likely_positions :: "(int \<times> nat list) list \<Rightarrow> error + (int \<times> int) list" where
  "most_likely_positions [] = Inr []"
| "most_likely_positions ((driver_id, counts) # rest) =
     (case argmax counts of
        Inl e \<Rightarrow> Inl e
      | Inr k \<Rightarrow>
          (case most_likely_positions rest of
             Inl e \<Rightarrow> Inl e
           | Inr final_positions \<Rightarrow> Inr ((driver_id, int k + 1) # final_positions)))"

section \<open>Position resolver\<close>

definition position_groups :: "(int \<times> int) list \<Rightarrow> (int \<times> int list) list" where
  "position_groups positions =
     fold (\<lambda>(driver_id, position) groups.
             AList.update position
               ((case map_of groups position of None \<Rightarrow> [] | Some ids \<Rightarrow> ids) @ [driver_id])
               groups)
          positions []"

text \<open>
  \<^verbatim>\<open>next((d for d in drivers if d.id == driver_id), None)\<close> is the first driver with
  that identifier; an identifier with no driver is left out of \<^verbatim>\<open>driver_skills\<close>.
\<close>

definition driver_skills :: "Driver list \<Rightarrow> int list \<Rightarrow> (int \<times> real) list" where
  "driver_skills drvs driver_ids =
     concat (map (\<lambda>driver_id.
                    case find (\<lambda>d. d_id d = driver_id) drvs of
                      None \<Rightarrow> []
                    | Some driver \<Rightarrow> [(driver_id, d_skill driver)])
                 driver_ids)"

definition assign_positions ::
  "int list \<Rightarrow> (int \<times> int) list \<times> int \<Rightarrow> (int \<times> int) list \<times> int" where
  "assign_positions driver_ids st =
     fold (\<lambda>driver_id (final_positions, current_position).
             (AList.update driver_id current_position final_positions, current_position + 1))
          driver_ids st"

definition resolve_group ::
  "Driver list \<Rightarrow> int list \<Rightarrow> (int \<times> int) list \<times> int \<Rightarrow> (int \<times> int) list \<times> int" where
  "resolve_group drvs driver_ids st =
     (if length driver_ids = 1 then assign_positions [driver_ids ! 0] st
      else assign_positions (map fst (sort_key (\<lambda>x. - snd x) (driver_skills drvs driver_ids))) st)"

text \<open>
  The loop runs over the keys of \<^verbatim>\<open>position_groups\<close> itself, so the read
  \<^verbatim>\<open>position_groups[position]\<close> always finds its key.
\<close>

definition resolve_position_conflicts :: "(int \<times> int) list \<Rightarrow> Driver list \<Rightarrow> (int \<times> int) list" where
  "resolve_position_conflicts positions drvs =
     (let groups = position_groups positions
      in fst (fold (\<lambda>position st.
                      case map_of groups position of
                        None \<Rightarrow> st
                      | Some driver_ids \<Rightarrow> resolve_group drvs driver_ids st)
                   (sort (map fst groups)) ([], 1)))"

definition run_monte_carlo_simulation ::
  "(real \<Rightarrow> real) \<Rightarrow> SimulationContext \<Rightarrow> RaceState \<Rightarrow> np_rng \<Rightarrow> error + ((int \<times> int) list \<times> np_rng)" where
  "run_monte_carlo_simulation rnd context state g =
     (let n = length (drivers context);
          position_counts = fold (\<lambda>driver pc. AList.update (d_id driver) (replicate n 0) pc)
                                 (drivers context) []
      in case monte_carlo_loop rnd context state MONTE_CARLO_ITERATIONS position_counts g of
           Inl e \<Rightarrow> Inl e
         | Inr (position_counts', g') \<Rightarrow>
             (case most_likely_positions position_counts' of
                Inl e \<Rightarrow> Inl e
              | Inr final_positions \<Rightarrow>
                  Inr (resolve_position_conflicts final_positions (drivers context), g')))"

section \<open>Result generator\<close>

definition points_system :: "int list" where
  "points_system = [25, 18, 15, 12, 10, 8, 6, 4, 2, 1]"

text \<open>Python list indexing: a negative index counts from the end, out of range raises.\<close>

definition py_index :: "'a list \<Rightarrow> int \<Rightarrow> error + 'a" where
  "py_index xs i =
     (if 0 \<le> i \<and> i < int (length xs) then Inr (xs ! nat i)
      else if i < 0 \<and> - int (length xs) \<le> i then Inr (xs ! nat (int (length xs) + i))
      else Inl IndexError)"

text \<open>
  The loop of \<^verbatim>\<open>_generate_race_results\<close>. The arguments of \<^verbatim>\<open>RaceResult(...)\<close> are
  evaluated after \<^verbatim>\<open>points\<close>; the read of \<^verbatim>\<open>context.race_state\<close> among them raises
  \<^verbatim>\<open>AttributeError\<close> when the context carries no such attribute.
\<close>

fun results_loop ::
  "SimulationContext \<Rightarrow> (int \<times> int) list \<Rightarrow> Driver list \<Rightarrow> RaceResult list
     \<Rightarrow> error + RaceResult list" where
  "results_loop context final_positions [] results = Inr results"
| "results_loop context final_positions (driver # rest) results =
     (case map_of final_positions (d_id driver) of
        None \<Rightarrow> results_loop context final_positions rest results
      | Some position \<Rightarrow>
          (case (if position \<le> int (length points_system)
                 then py_index points_system (position - 1) else Inr 0) of
             Inl e \<Rightarrow> Inl e
           | Inr points \<Rightarrow>
               (case race_state_attr context of
                  None \<Rightarrow> Inl AttributeError
                | Some rs \<Rightarrow>
                    (let grid = (case rs ''grid_positions'' of None \<Rightarrow> Map.empty | Some gp \<Rightarrow> gp);
                         result = \<lparr>r_id = 0, r_race_id = rc_id (race context),
                                   r_driver_id = d_id driver,
                                   r_team_id = d_current_team_id driver,
                                   r_position = position, r_points = points,
                                   r_fastest_lap = False, r_dnf_reason = None,
                                   r_grid_position =
                                     (case grid (d_id driver) of None \<Rightarrow> position | Some p \<Rightarrow> p)\<rparr>
                     in results_loop context final_positions rest (results @ [result])))))"

text \<open>
  \<^verbatim>\<open>top_10\<close> holds references to objects of \<^verbatim>\<open>results\<close>; it is modelled by the list of
  their indices, so that the update of the chosen object is an update of \<^verbatim>\<open>results\<close>.
\<close>

definition assign_fastest_lap :: "RaceResult list \<Rightarrow> py_random \<Rightarrow> RaceResult list \<times> py_random" where
  "assign_fastest_lap results g =
     (if results \<noteq> [] then
        (let top_10 = filter (\<lambda>i. r_position (results ! i) \<le> 10) [0..<length results]
         in if top_10 \<noteq> [] then
              (let (k, g') = random_choice (length top_10) g;
                   i = top_10 ! k;
                   fastest_lap_driver = results ! i
               in (results[i := fastest_lap_driver\<lparr>r_fastest_lap := True,
                                                   r_points := r_points fastest_lap_driver + 1\<rparr>], g'))
            else (results, g))
      else (results, g))"

definition generate_race_results ::
  "SimulationContext \<Rightarrow> (int \<times> int) list \<Rightarrow> py_random \<Rightarrow> error + (RaceResult list \<times> py_random)" where
  "generate_race_results context final_positions g =
     (case results_loop context final_positions (drivers context) [] of
        Inl e \<Rightarrow> Inl e
      | Inr results \<Rightarrow>
          (let (results', g') = assign_fastest_lap results g
           in Inr (sort_key r_position results', g')))"

section \<open>The engine\<close>

text \<open>
  \<^verbatim>\<open>simulate_race\<close> of the simulator object \<open>self\<close>: the normal deviates come from
  \<^verbatim>\<open>self.rng\<close>, the choice of the fastest lap from the generator of the module. An
  exception ends the call; the state of the process after a call that raised is not part
  of the result.
\<close>

definition simulate_race ::
  "(real \<Rightarrow> real) \<Rightarrow> SimulationContext \<Rightarrow> nat \<Rightarrow> world \<Rightarrow> error + (RaceResult list \<times> world)" where
  "simulate_race rnd context self w =
     (let (state, g1) = initialize_race_state rnd context (rng_of w self)
      in case run_monte_carlo_simulation rnd context state g1 of
           Inl e \<Rightarrow> Inl e
         | Inr (final_positions, g2) \<Rightarrow>
             (case generate_race_results context final_positions (module_random w) of
                Inl e \<Rightarrow> Inl e
              | Inr (results, r') \<Rightarrow>
                  Inr (results, w\<lparr>module_random := r', rng_of := (rng_of w)(self := g2)\<rparr>)))"

section \<open>Callers\<close>




section \<open>Constants of the tier branches\<close>

text \<open>
  The base offset and the reference ceiling that each branch of
  \<^verbatim>\<open>_calculate_team_performance\<close> uses.
\<close>

definition tier_base :: "(real \<Rightarrow> real) \<Rightarrow> Team \<Rightarrow> real" where
  "tier_base rnd team =
     (if t_tier team = ''tier1'' then rnd 0.8 else if t_tier team = ''tier2'' then rnd 0.6 else rnd 0.4)"

definition tier_ceiling :: "Team \<Rightarrow> real" where
  "tier_ceiling team = (if t_tier team = ''tier1'' then 400.0 else if t_tier team = ''tier2'' then 150.0 else 80.0)"

section \<open>Invariants of the resolver and of the result loop\<close>

text \<open>
  The resolver hands out positions from a counter that starts at 1: the counter and every
  position already assigned are at least 1.
\<close>

definition resolver_inv :: "(int \<times> int) list \<times> int \<Rightarrow> bool" where
  "resolver_inv st \<longleftrightarrow> 1 \<le> snd st \<and> (\<forall>k p. map_of (fst st) k = Some p \<longrightarrow> 1 \<le> p)"

text \<open>
  What the loop of \<^verbatim>\<open>_generate_race_results\<close> establishes for each record it appends:
  no fastest lap yet, the position read from \<^verbatim>\<open>final_positions\<close>, the points read from
  the table.
\<close>

definition result_ok :: "(int \<times> int) list \<Rightarrow> RaceResult \<Rightarrow> bool" where
  "result_ok fp r \<longleftrightarrow>
     \<not> r_fastest_lap r \<and> map_of fp (r_driver_id r) = Some (r_position r)
     \<and> (if r_position r \<le> 10 then py_index points_system (r_position r - 1) = Inr (r_points r)
         else r_points r = 0)"

section \<open>Order of a list and of its stable sort\<close>

text \<open>
  \<open>precedes xs a b\<close>: \<open>a\<close> stands before \<open>b\<close> in \<open>xs\<close>. \<open>stable_order f xs a b\<close>: the
  key of \<open>a\<close> is smaller, or the keys are equal and \<open>a\<close> stands before \<open>b\<close> in \<open>xs\<close>.
\<close>

definition precedes :: "'a list \<Rightarrow> 'a \<Rightarrow> 'a \<Rightarrow> bool" where
  "precedes xs a b \<longleftrightarrow> (\<exists>i j. i < j \<and> j < length xs \<and> xs ! i = a \<and> xs ! j = b)"

definition stable_order :: "('a \<Rightarrow> real) \<Rightarrow> 'a list \<Rightarrow> 'a \<Rightarrow> 'a \<Rightarrow> bool" where
  "stable_order f xs a b \<longleftrightarrow> f a < f b \<or> (f a = f b \<and> precedes xs a b)"

section \<open>Concrete races\<close>

text \<open>
  A one-driver field on a dry tarmac track. \<open>ex_context\<close> is the context as the
  dataclass constructor builds it; \<open>ex_attached_context\<close> is the same object after a
  caller stored a dictionary under the attribute \<^verbatim>\<open>race_state\<close>. The stray driver has no
  team. In \<open>ex_world\<close> no simulator exists yet; every \<^verbatim>\<open>RandomState\<close> yields zeros and
  the generator of the module yields 0, 1, 2 and so on.
\<close>

definition ex_track :: Track where
  "ex_track = \<lparr>tr_id = 1, tr_surface_type = ''tarmac'', tr_difficulty = 0.5,
               tr_weather_impact = 0.5, tr_overtaking_difficulty = 0.5\<rparr>"

definition ex_team :: Team where
  "ex_team = \<lparr>t_id = 1, t_tier = ''tier1'', t_budget = 200\<rparr>"

definition ex_driver :: Driver where
  "ex_driver = \<lparr>d_id = 7, d_skill = 0.9, d_consistency = 0.8, d_aggression = 0.5,
                d_racecraft = 0.7, d_adaptability = 0.6, d_current_team_id = Some 1\<rparr>"

definition ex_stray_driver :: Driver where
  "ex_stray_driver = \<lparr>d_id = 9, d_skill = 0.4, d_consistency = 0.5, d_aggression = 0.5,
                      d_racecraft = 0.5, d_adaptability = 0.5, d_current_team_id = None\<rparr>"

definition ex_context :: SimulationContext where
  "ex_context = \<lparr>race = \<lparr>rc_id = 3\<rparr>, track = ex_track, drivers = [ex_driver],
                 teams = [1 \<mapsto> ex_team], weather_factor = 1.0, tire_degradation = 0.1,
                 race_state_attr = None\<rparr>"

definition ex_attached_context :: SimulationContext where
  "ex_attached_context =
     ex_context\<lparr>race_state_attr := Some [''grid_positions'' \<mapsto> [7 \<mapsto> 5]]\<rparr>"

definition ex_wet_context :: SimulationContext where
  "ex_wet_context = ex_context\<lparr>weather_factor := 0.7\<rparr>"

definition ex_stray_context :: SimulationContext where
  "ex_stray_context = ex_context\<lparr>drivers := [ex_stray_driver], teams := Map.empty\<rparr>"

definition ex_stray_attached_context :: SimulationContext where
  "ex_stray_attached_context = ex_stray_context\<lparr>race_state_attr := Some Map.empty\<rparr>"

text \<open>Two drivers who differ in their identifier only, for a tie in qualifying.\<close>

definition ex_twin_driver :: Driver where
  "ex_twin_driver = ex_driver\<lparr>d_id := 8\<rparr>"

definition ex_tie_context :: SimulationContext where
  "ex_tie_context = ex_context\<lparr>drivers := [ex_driver, ex_twin_driver]\<rparr>"



definition ex_world :: world where
  "ex_world = \<lparr>module_random = (\<lambda>i. i), rng_of = (\<lambda>_ _. 0), next_object = 0\<rparr>"

definition ex_result :: RaceResult where
  "ex_result = \<lparr>r_id = 0, r_race_id = 3, r_driver_id = 7, r_team_id = Some 1, r_position = 1,
                r_points = 26, r_fastest_lap = True, r_dnf_reason = None, r_grid_position = 5\<rparr>"

definition ex_result_outside :: RaceResult where
  "ex_result_outside = \<lparr>r_id = 0, r_race_id = 3, r_driver_id = 7, r_team_id = Some 1,
                r_position = 11, r_points = 0, r_fastest_lap = False, r_dnf_reason = None,
                r_grid_position = 5\<rparr>"

definition ex_stray_result :: RaceResult where
  "ex_stray_result = \<lparr>r_id = 0, r_race_id = 3, r_driver_id = 9, r_team_id = None, r_position = 1,
                r_points = 26, r_fastest_lap = True, r_dnf_reason = None, r_grid_position = 1\<rparr>"

section \<open>Rounding\<close>

lemma rounding_id: "rounding (\<lambda>x. x)"
  by (simp add: rounding_def)

lemma rounding_mono: "rounding rnd \<Longrightarrow> x \<le> y \<Longrightarrow> rnd x \<le> rnd y"
  by (simp add: rounding_def)

lemma rounding_idem: "rounding rnd \<Longrightarrow> rnd (rnd x) = rnd x"
  by (simp add: rounding_def)

lemma rounding_nonneg: "rounding rnd \<Longrightarrow> 0 \<le> x \<Longrightarrow> 0 \<le> rnd x"
  using rounding_mono [of rnd 0 x] by (simp add: rounding_def)

lemma rounding_le_one: "rounding rnd \<Longrightarrow> x \<le> 1 \<Longrightarrow> rnd x \<le> 1"
  using rounding_mono [of rnd x 1] by (simp add: rounding_def)

section \<open>Team performance factor and driver form\<close>

text \<open>
  C10. The driver form lies between the literals \<^verbatim>\<open>0.1\<close> and \<^verbatim>\<open>1.0\<close> of the clamp,
  whatever the attributes of the driver are and whatever deviate the generator yields for
  the perturbation, in every arithmetic that rounds as \<open>rounding\<close> says. In exact arithmetic
  the bounds are 0.1 and 1.0.
\<close>

theorem driver_form_within_bounds:
  assumes "rounding rnd"
  shows "rnd 0.1 \<le> fst (calculate_driver_form rnd driver g)
       \<and> fst (calculate_driver_form rnd driver g) \<le> 1.0"
proof -
  have "rnd 0.1 \<le> 1" by (rule rounding_le_one [OF assms]) simp
  then show ?thesis
    by (simp add: calculate_driver_form_def rng_normal_def Let_def)
qed

text \<open>
  In exact arithmetic, for the driver of the concrete race and a generator that yields
  zeros: the form lies in [0.1, 1.0].
\<close>

theorem driver_form_within_bounds_witness:
  "rounding (\<lambda>x. x)
   \<and> 0.1 \<le> fst (calculate_driver_form (\<lambda>x. x) ex_driver (\<lambda>_. 0))
   \<and> fst (calculate_driver_form (\<lambda>x. x) ex_driver (\<lambda>_. 0)) \<le> 1.0"
  using driver_form_within_bounds [OF rounding_id, of ex_driver "\<lambda>_. 0"] rounding_id by simp

lemma base_plus_nonneg:
  assumes "rounding rnd" and "0 \<le> q" and "lit \<le> 1"
  shows "rnd lit \<le> min (rnd (rnd lit + rnd (rnd q * rnd 0.2))) 1"
proof -
  have "0 \<le> rnd q" using assms(1,2) by (rule rounding_nonneg)
  moreover have "0 \<le> rnd 0.2" by (rule rounding_nonneg [OF assms(1)]) simp
  ultimately have "0 \<le> rnd q * rnd 0.2" by simp
  then have "0 \<le> rnd (rnd q * rnd 0.2)" by (rule rounding_nonneg [OF assms(1)])
  then have "rnd lit \<le> rnd lit + rnd (rnd q * rnd 0.2)" by simp
  then have "rnd (rnd lit) \<le> rnd (rnd lit + rnd (rnd q * rnd 0.2))"
    by (rule rounding_mono [OF assms(1)])
  then have "rnd lit \<le> rnd (rnd lit + rnd (rnd q * rnd 0.2))"
    using assms(1) by (simp add: rounding_idem)
  moreover have "rnd lit \<le> 1" using assms(1,3) by (rule rounding_le_one)
  ultimately show ?thesis by simp
qed

text \<open>
  C9, as amended. The factor is the tier's base offset plus 0.2 times the budget divided by
  the tier's ceiling, capped at 1.0, each operation rounded. The divisor is a non-zero
  constant, so no division fails, and the factor never exceeds 1.0. There is no lower
  clamp: a budget that is not negative gives at least the tier's base offset, and nothing
  is promised for a negative budget.
\<close>

theorem team_performance_cap_without_floor:
  assumes "rounding rnd"
  shows "calculate_team_performance rnd team
           = min (rnd (tier_base rnd team + rnd (rnd (t_budget team / tier_ceiling team) * rnd 0.2))) 1.0
       \<and> tier_ceiling team \<noteq> 0
       \<and> calculate_team_performance rnd team \<le> 1.0
       \<and> (0 \<le> t_budget team \<longrightarrow> tier_base rnd team \<le> calculate_team_performance rnd team)"
proof -
  have eq: "calculate_team_performance rnd team
           = min (rnd (tier_base rnd team + rnd (rnd (t_budget team / tier_ceiling team) * rnd 0.2))) 1.0"
    by (simp add: calculate_team_performance_def tier_base_def tier_ceiling_def Let_def)
  have ne: "tier_ceiling team \<noteq> 0" and pos: "0 < tier_ceiling team"
    by (simp_all add: tier_ceiling_def)
  have le: "calculate_team_performance rnd team \<le> 1.0" unfolding eq by simp
  have fl: "tier_base rnd team \<le> calculate_team_performance rnd team" if "0 \<le> t_budget team"
  proof -
    have q: "0 \<le> t_budget team / tier_ceiling team" using that pos by simp
    obtain lit :: real where lit: "tier_base rnd team = rnd lit" "lit \<le> 1"
      by (cases "t_tier team = ''tier1''"; cases "t_tier team = ''tier2''")
         (auto simp: tier_base_def)
    show ?thesis
      unfolding eq lit(1) using base_plus_nonneg [OF assms q lit(2)] by simp
  qed
  show ?thesis using eq ne le fl by blast
qed

text \<open>
  In exact arithmetic, for the tier-1 team of the concrete race with budget 200: the
  budget is not negative and the factor 0.9 is at least the base offset 0.8.
\<close>

theorem team_performance_cap_without_floor_witness:
  "rounding (\<lambda>x. x)
   \<and> tier_ceiling ex_team \<noteq> 0
   \<and> calculate_team_performance (\<lambda>x. x) ex_team \<le> 1.0
   \<and> 0 \<le> t_budget ex_team
   \<and> tier_base (\<lambda>x. x) ex_team \<le> calculate_team_performance (\<lambda>x. x) ex_team"
proof -
  have "0 \<le> t_budget ex_team" by (simp add: ex_team_def)
  then show ?thesis
    using team_performance_cap_without_floor [OF rounding_id, of ex_team] rounding_id by blast
qed

text \<open>
  The claim as stated fails: a tier-3 team with budget -80 has a non-positive budget and a
  factor of 0.2, below the tier's base offset 0.4. The values are those of exact
  arithmetic; binary64 gives the same two floats, because every operation involved is
  exact there (-80/80 is -1, and the float 0.4 is twice the float 0.2).
\<close>

theorem team_performance_below_base_counterexample:
  "t_budget \<lparr>t_id = 1, t_tier = ''tier3'', t_budget = - 80\<rparr> \<le> 0
   \<and> tier_base (\<lambda>x. x) \<lparr>t_id = 1, t_tier = ''tier3'', t_budget = - 80\<rparr> = 0.4
   \<and> calculate_team_performance (\<lambda>x. x) \<lparr>t_id = 1, t_tier = ''tier3'', t_budget = - 80\<rparr> = 0.2
   \<and> calculate_team_performance (\<lambda>x. x) \<lparr>t_id = 1, t_tier = ''tier3'', t_budget = - 80\<rparr>
       < tier_base (\<lambda>x. x) \<lparr>t_id = 1, t_tier = ''tier3'', t_budget = - 80\<rparr>"
  by (simp add: calculate_team_performance_def tier_base_def)

section \<open>Race state after initialisation\<close>

lemma performance_loop_grid:
  "grid_positions (fst (performance_loop rnd ctx ds st g)) = grid_positions st"
  by (induction ds arbitrary: st g) (auto split: option.splits prod.splits)

lemma performance_loop_dom_car:
  "dom (car_performance (fst (performance_loop rnd ctx ds st g))) =
     dom (car_performance st) \<union> d_id ` {d \<in> set ds. teams_get ctx (d_current_team_id d) \<noteq> None}"
  by (induction ds arbitrary: st g) (auto split: option.splits prod.splits)

lemma performance_loop_dom_form:
  "dom (driver_form (fst (performance_loop rnd ctx ds st g))) =
     dom (driver_form st) \<union> d_id ` {d \<in> set ds. teams_get ctx (d_current_team_id d) \<noteq> None}"
  by (induction ds arbitrary: st g) (auto split: option.splits prod.splits)

lemma performance_loop_car_other:
  "k \<notin> d_id ` set ds \<Longrightarrow>
     car_performance (fst (performance_loop rnd ctx ds st g)) k = car_performance st k"
  by (induction ds arbitrary: st g) (auto split: option.splits prod.splits)

lemma performance_loop_car:
  "distinct (map d_id ds) \<Longrightarrow> d \<in> set ds \<Longrightarrow> teams_get ctx (d_current_team_id d) = Some team \<Longrightarrow>
     car_performance (fst (performance_loop rnd ctx ds st g)) (d_id d) = Some (calculate_team_performance rnd team)"
proof (induction ds arbitrary: st g)
  case Nil
  then show ?case by simp
next
  case (Cons a ds)
  show ?case
  proof (cases "a = d")
    case True
    then have "d_id d \<notin> d_id ` set ds" using Cons.prems(1) by auto
    then show ?thesis using True Cons.prems(3)
      by (simp add: performance_loop_car_other split: prod.splits)
  next
    case False
    then show ?thesis using Cons
      by (auto split: option.splits prod.splits)
  qed
qed

lemma initialize_dom:
  "dom (car_performance (fst (initialize_race_state rnd ctx g))) =
     d_id ` {d \<in> set (drivers ctx). teams_get ctx (d_current_team_id d) \<noteq> None}"
  "dom (driver_form (fst (initialize_race_state rnd ctx g))) =
     d_id ` {d \<in> set (drivers ctx). teams_get ctx (d_current_team_id d) \<noteq> None}"
  by (simp_all add: initialize_race_state_def Let_def performance_loop_dom_car performance_loop_dom_form)

lemma initialize_car:
  "distinct (map d_id (drivers ctx)) \<Longrightarrow> d \<in> set (drivers ctx) \<Longrightarrow>
   teams_get ctx (d_current_team_id d) = Some team \<Longrightarrow>
     car_performance (fst (initialize_race_state rnd ctx g)) (d_id d) = Some (calculate_team_performance rnd team)"
  by (simp add: initialize_race_state_def Let_def performance_loop_car)

lemma initialize_no_key_error:
  "car_performance (fst (initialize_race_state rnd ctx g)) k \<noteq> None
     \<longrightarrow> driver_form (fst (initialize_race_state rnd ctx g)) k \<noteq> None"
proof -
  have "dom (car_performance (fst (initialize_race_state rnd ctx g)))
        = dom (driver_form (fst (initialize_race_state rnd ctx g)))"
    by (simp add: initialize_dom)
  then show ?thesis by (metis domIff)
qed

lemma initialize_grid:
  "grid_positions (fst (initialize_race_state rnd ctx g))
     = assign_grid (sort_key snd (qualifying_loop rnd ctx (drivers ctx) []))"
  unfolding initialize_race_state_def Let_def by (simp add: performance_loop_grid)

lemma eligible_filter_eq:
  assumes "distinct (map d_id (drivers ctx))"
  shows "[d \<leftarrow> drivers ctx. car_performance (fst (initialize_race_state rnd ctx g)) (d_id d) \<noteq> None]
       = [d \<leftarrow> drivers ctx. teams_get ctx (d_current_team_id d) \<noteq> None]"
proof (rule filter_cong [OF refl])
  fix d assume d: "d \<in> set (drivers ctx)"
  have "d_id d \<in> dom (car_performance (fst (initialize_race_state rnd ctx g)))
        \<longleftrightarrow> teams_get ctx (d_current_team_id d) \<noteq> None"
  proof
    assume "d_id d \<in> dom (car_performance (fst (initialize_race_state rnd ctx g)))"
    then obtain d' where d': "d' \<in> set (drivers ctx)" "teams_get ctx (d_current_team_id d') \<noteq> None"
        "d_id d' = d_id d"
      unfolding initialize_dom by auto
    then have "d' = d" using assms d by (meson distinct_map inj_onD)
    then show "teams_get ctx (d_current_team_id d) \<noteq> None" using d' by simp
  next
    assume "teams_get ctx (d_current_team_id d) \<noteq> None"
    then show "d_id d \<in> dom (car_performance (fst (initialize_race_state rnd ctx g)))"
      unfolding initialize_dom using d by blast
  qed
  then show "(car_performance (fst (initialize_race_state rnd ctx g)) (d_id d) \<noteq> None)
           = (teams_get ctx (d_current_team_id d) \<noteq> None)"
    by (auto simp: dom_def)
qed

section \<open>The score of one trial\<close>

lemma update_fresh: "k \<notin> fst ` set al \<Longrightarrow> AList.update k v al = al @ [(k, v)]"
  by (induction al) auto

lemma race_performance_loop_closed:
  assumes "distinct (map d_id [d \<leftarrow> ds. car_performance st (d_id d) \<noteq> None])"
    and "\<forall>d \<in> set ds. car_performance st (d_id d) \<noteq> None \<longrightarrow> d_id d \<notin> fst ` set acc"
    and "dom (car_performance st) \<subseteq> dom (driver_form st)"
  shows "race_performance_loop rnd ctx st ds acc g =
     Inr (acc @ map (\<lambda>(d, z). (d_id d, total_performance rnd ctx d (the (car_performance st (d_id d)))
                                   (the (driver_form st (d_id d))) (rnd (1.0 + rnd (rnd 0.1 * z)))))
                    (zip [d \<leftarrow> ds. car_performance st (d_id d) \<noteq> None]
                         (map g [0..<length [d \<leftarrow> ds. car_performance st (d_id d) \<noteq> None]])),
          \<lambda>i. g (length [d \<leftarrow> ds. car_performance st (d_id d) \<noteq> None] + i))"
  using assms
proof (induction ds arbitrary: acc g)
  case Nil
  then show ?case by simp
next
  case (Cons d ds)
  show ?case
  proof (cases "car_performance st (d_id d)")
    case None
    then show ?thesis using Cons by simp
  next
    case (Some b)
    then obtain f where f: "driver_form st (d_id d) = Some f"
      using Cons.prems(3) by blast
    let ?el = "[d \<leftarrow> ds. car_performance st (d_id d) \<noteq> None]"
    let ?acc = "AList.update (d_id d) (total_performance rnd ctx d b f (rnd (1.0 + rnd (rnd 0.1 * g 0)))) acc"
    have fresh: "d_id d \<notin> fst ` set acc" using Cons.prems(2) Some by simp
    have acc: "?acc = acc @ [(d_id d, total_performance rnd ctx d b f (rnd (1.0 + rnd (rnd 0.1 * g 0))))]"
      using fresh by (rule update_fresh)
    have d1: "distinct (map d_id ?el)" and notin: "d_id d \<notin> d_id ` set ?el"
      using Cons.prems(1) Some by auto
    have d2: "\<forall>x \<in> set ds. car_performance st (d_id x) \<noteq> None \<longrightarrow> d_id x \<notin> fst ` set ?acc"
    proof (intro ballI impI)
      fix x assume x: "x \<in> set ds" "car_performance st (d_id x) \<noteq> None"
      then have "d_id x \<in> d_id ` set ?el" by simp
      then have "d_id x \<noteq> d_id d" using notin by metis
      moreover have "d_id x \<notin> fst ` set acc" using Cons.prems(2) x by simp
      ultimately show "d_id x \<notin> fst ` set ?acc" unfolding acc by auto
    qed
    have up: "map g [0..<Suc (length ?el)] = g 0 # map (\<lambda>i. g (Suc i)) [0..<length ?el]"
      by (simp add: upt_conv_Cons map_Suc_upt [symmetric] del: upt_Suc)
    show ?thesis
      using Cons.IH [OF d1 d2 Cons.prems(3), of "\<lambda>i. g (Suc i)"] Some f up
      by (simp add: rng_normal_def update_fresh [OF fresh] del: upt_Suc)
  qed
qed

text \<open>
  C7. In a trial run on the state that \<^verbatim>\<open>_initialize_race_state\<close> built, the loop does
  not fail, and the score stored for the \<open>k\<close>-th driver with a resolvable team is
  (car performance times 0.4 + form times 0.3 + weather impact times 0.1 + track
  suitability times 0.1 + strategy impact times 0.1) times a luck factor, the \<open>k\<close>-th draw
  \<open>normal(1.0, 0.1)\<close> of the trial, each operation rounded in the order of the source. The
  weather impact is 1.0 when the weather factor is 1.0 and otherwise
  0.8 + (adaptability times 0.6 + skill times 0.4) times 0.2, again with each operation
  rounded; for attributes in [0, 1] it lies between the literal \<^verbatim>\<open>0.8\<close> and 1.0 in every
  arithmetic that rounds as \<open>rounding\<close> says and rounds the sums 0.6 + 0.4 and 0.8 + 0.2 of
  the literals to at most 1 (binary64 does: the first sum of floats is exactly 1, the
  second exceeds 1 by less than half a unit in the last place and rounds to 1). In exact
  arithmetic the score is (0.4 car performance + 0.3 form + 0.1 weather impact
  + 0.1 track suitability + 0.1 strategy impact) times luck and the weather impact is
  0.8 + 0.2 (0.6 adaptability + 0.4 skill), in [0.8, 1.0]. Driver identifiers are distinct.
\<close>

theorem trial_performance_score:
  assumes ids: "distinct (map d_id (drivers context))"
    and state: "state = fst (initialize_race_state rnd context g0)"
    and eligible: "eligible = [d \<leftarrow> drivers context. teams_get context (d_current_team_id d) \<noteq> None]"
    and k: "k < length eligible"
    and driver: "driver = eligible ! k"
  shows "(\<exists>race_performance g' team driver_performance.
           race_performance_loop rnd context state (drivers context) [] g = Inr (race_performance, g')
         \<and> teams_get context (d_current_team_id driver) = Some team
         \<and> car_performance state (d_id driver) = Some (calculate_team_performance rnd team)
         \<and> driver_form state (d_id driver) = Some driver_performance
         \<and> map_of race_performance (d_id driver) =
             Some (rnd (rnd (rnd (rnd (rnd (rnd (calculate_team_performance rnd team * rnd 0.4)
                    + rnd (driver_performance * rnd 0.3))
                    + rnd (calculate_weather_impact rnd driver context * rnd 0.1))
                    + rnd (calculate_track_suitability rnd driver (track context) * rnd 0.1))
                    + rnd (simulate_strategy_impact rnd driver context * rnd 0.1))
                    * fst (rng_normal rnd 1.0 (rnd 0.1) (\<lambda>i. g (k + i))))))
       \<and> calculate_weather_impact rnd driver context
           = (if weather_factor context = 1.0 then 1.0
              else rnd (rnd 0.8 + rnd (rnd (rnd (d_adaptability driver * rnd 0.6)
                                            + rnd (d_skill driver * rnd 0.4)) * rnd 0.2)))
       \<and> (rounding rnd \<and> rnd (rnd 0.6 + rnd 0.4) \<le> 1 \<and> rnd (rnd 0.8 + rnd 0.2) \<le> 1
            \<and> 0 \<le> d_adaptability driver \<and> d_adaptability driver \<le> 1
            \<and> 0 \<le> d_skill driver \<and> d_skill driver \<le> 1
          \<longrightarrow> rnd 0.8 \<le> calculate_weather_impact rnd driver context
               \<and> calculate_weather_impact rnd driver context \<le> 1.0)"
proof -
  let ?el = "[d \<leftarrow> drivers context. car_performance state (d_id d) \<noteq> None]"
  have el: "?el = eligible" unfolding state eligible by (rule eligible_filter_eq [OF ids])
  have sub: "dom (car_performance state) \<subseteq> dom (driver_form state)"
    unfolding state initialize_dom by simp
  have dist: "distinct (map d_id ?el)" using ids by (simp add: distinct_map_filter)
  let ?f = "\<lambda>(d, z). (d_id d, total_performance rnd context d (the (car_performance state (d_id d)))
                                   (the (driver_form state (d_id d))) (rnd (1.0 + rnd (rnd 0.1 * z))))"
  let ?rp = "map ?f (zip eligible (map g [0..<length eligible]))"
  have loop: "race_performance_loop rnd context state (drivers context) [] g
               = Inr (?rp, \<lambda>i. g (length eligible + i))"
    using race_performance_loop_closed [where ds = "drivers context" and st = state and acc = "[]" and ctx = "context" and g = g] dist sub el
    by simp
  have mem: "driver \<in> set eligible" using k driver by simp
  then have din: "driver \<in> set (drivers context)" and
     tm: "teams_get context (d_current_team_id driver) \<noteq> None"
    unfolding eligible by auto
  then obtain team where team: "teams_get context (d_current_team_id driver) = Some team" by blast
  have car: "car_performance state (d_id driver) = Some (calculate_team_performance rnd team)"
    unfolding state by (rule initialize_car [OF ids din team])
  obtain form where form: "driver_form state (d_id driver) = Some form"
    using sub car by blast
  have keys: "map fst ?rp = map d_id eligible"
    by (rule nth_equalityI) (simp_all add: split_def)
  have dk: "distinct (map fst ?rp)" unfolding keys using dist el by simp
  have "?rp ! k = ?f (driver, g k)" using k driver by simp
  then have "(d_id driver, total_performance rnd context driver (calculate_team_performance rnd team) form
                  (rnd (1.0 + rnd (rnd 0.1 * g k)))) \<in> set ?rp"
    using k car form by (metis (no_types, lifting) case_prod_conv length_map length_zip
        min.idem nth_mem option.sel diff_zero length_upt)
  then have "map_of ?rp (d_id driver) =
      Some (total_performance rnd context driver (calculate_team_performance rnd team) form
              (rnd (1.0 + rnd (rnd 0.1 * g k))))"
    using dk by (rule map_of_is_SomeI [rotated])
  then have "map_of ?rp (d_id driver) =
             Some (rnd (rnd (rnd (rnd (rnd (rnd (calculate_team_performance rnd team * rnd 0.4)
                    + rnd (form * rnd 0.3))
                    + rnd (calculate_weather_impact rnd driver context * rnd 0.1))
                    + rnd (calculate_track_suitability rnd driver (track context) * rnd 0.1))
                    + rnd (simulate_strategy_impact rnd driver context * rnd 0.1))
                    * fst (rng_normal rnd 1.0 (rnd 0.1) (\<lambda>i. g (k + i)))))"
    by (simp add: total_performance_def Let_def rng_normal_def)
  then have A: "\<exists>race_performance g' team driver_performance.
           race_performance_loop rnd context state (drivers context) [] g = Inr (race_performance, g')
         \<and> teams_get context (d_current_team_id driver) = Some team
         \<and> car_performance state (d_id driver) = Some (calculate_team_performance rnd team)
         \<and> driver_form state (d_id driver) = Some driver_performance
         \<and> map_of race_performance (d_id driver) =
             Some (rnd (rnd (rnd (rnd (rnd (rnd (calculate_team_performance rnd team * rnd 0.4)
                    + rnd (driver_performance * rnd 0.3))
                    + rnd (calculate_weather_impact rnd driver context * rnd 0.1))
                    + rnd (calculate_track_suitability rnd driver (track context) * rnd 0.1))
                    + rnd (simulate_strategy_impact rnd driver context * rnd 0.1))
                    * fst (rng_normal rnd 1.0 (rnd 0.1) (\<lambda>i. g (k + i)))))"
    using loop team car form by blast
  have B: "calculate_weather_impact rnd driver context
           = (if weather_factor context = 1.0 then 1.0
              else rnd (rnd 0.8 + rnd (rnd (rnd (d_adaptability driver * rnd 0.6)
                                            + rnd (d_skill driver * rnd 0.4)) * rnd 0.2)))"
    by (simp add: calculate_weather_impact_def Let_def)
  have C: "rnd 0.8 \<le> calculate_weather_impact rnd driver context
               \<and> calculate_weather_impact rnd driver context \<le> 1.0"
    if h: "rounding rnd \<and> rnd (rnd 0.6 + rnd 0.4) \<le> 1 \<and> rnd (rnd 0.8 + rnd 0.2) \<le> 1
            \<and> 0 \<le> d_adaptability driver \<and> d_adaptability driver \<le> 1
            \<and> 0 \<le> d_skill driver \<and> d_skill driver \<le> 1"
  proof -
    from h have r: "rounding rnd" by blast
    have l8: "rnd 0.8 \<le> 1" by (rule rounding_le_one [OF r]) simp
    show ?thesis
    proof (cases "weather_factor context = 1")
      case True
      then show ?thesis using l8 by (simp add: calculate_weather_impact_def)
    next
      case False
      define a where "a = rnd (d_adaptability driver * rnd 0.6)"
      define s where "s = rnd (d_skill driver * rnd 0.4)"
      define w where "w = rnd (a + s)"
      define t where "t = rnd (w * rnd 0.2)"
      have p6: "0 \<le> rnd 0.6" by (rule rounding_nonneg [OF r]) simp
      have p4: "0 \<le> rnd 0.4" by (rule rounding_nonneg [OF r]) simp
      have p2: "0 \<le> rnd 0.2" by (rule rounding_nonneg [OF r]) simp
      have "0 \<le> d_adaptability driver * rnd 0.6" using h p6 by simp
      then have a0: "0 \<le> a" unfolding a_def by (rule rounding_nonneg [OF r])
      have "0 \<le> d_skill driver * rnd 0.4" using h p4 by simp
      then have s0: "0 \<le> s" unfolding s_def by (rule rounding_nonneg [OF r])
      have "d_adaptability driver * rnd 0.6 \<le> 1 * rnd 0.6"
        using h p6 by (intro mult_right_mono) simp_all
      then have "d_adaptability driver * rnd 0.6 \<le> rnd 0.6" by simp
      then have "a \<le> rnd (rnd 0.6)" unfolding a_def by (rule rounding_mono [OF r])
      then have a1: "a \<le> rnd 0.6" by (simp add: rounding_idem [OF r])
      have "d_skill driver * rnd 0.4 \<le> 1 * rnd 0.4"
        using h p4 by (intro mult_right_mono) simp_all
      then have "d_skill driver * rnd 0.4 \<le> rnd 0.4" by simp
      then have "s \<le> rnd (rnd 0.4)" unfolding s_def by (rule rounding_mono [OF r])
      then have s1: "s \<le> rnd 0.4" by (simp add: rounding_idem [OF r])
      have "0 \<le> a + s" using a0 s0 by simp
      then have w0: "0 \<le> w" unfolding w_def by (rule rounding_nonneg [OF r])
      have "a + s \<le> rnd 0.6 + rnd 0.4" using a1 s1 by simp
      then have "w \<le> rnd (rnd 0.6 + rnd 0.4)" unfolding w_def by (rule rounding_mono [OF r])
      then have w1: "w \<le> 1" using h by simp
      have "0 \<le> w * rnd 0.2" using w0 p2 by simp
      then have t0: "0 \<le> t" unfolding t_def by (rule rounding_nonneg [OF r])
      have "w * rnd 0.2 \<le> 1 * rnd 0.2" using w1 p2 by (intro mult_right_mono)
      then have "w * rnd 0.2 \<le> rnd 0.2" by simp
      then have "t \<le> rnd (rnd 0.2)" unfolding t_def by (rule rounding_mono [OF r])
      then have t1: "t \<le> rnd 0.2" by (simp add: rounding_idem [OF r])
      have "rnd 0.8 \<le> rnd 0.8 + t" using t0 by simp
      then have "rnd (rnd 0.8) \<le> rnd (rnd 0.8 + t)" by (rule rounding_mono [OF r])
      then have lo: "rnd 0.8 \<le> rnd (rnd 0.8 + t)" by (simp add: rounding_idem [OF r])
      have "rnd 0.8 + t \<le> rnd 0.8 + rnd 0.2" using t1 by simp
      then have "rnd (rnd 0.8 + t) \<le> rnd (rnd 0.8 + rnd 0.2)" by (rule rounding_mono [OF r])
      then have hi: "rnd (rnd 0.8 + t) \<le> 1" using h by simp
      have "calculate_weather_impact rnd driver context = rnd (rnd 0.8 + t)"
        using False by (simp add: calculate_weather_impact_def Let_def t_def w_def a_def s_def)
      then show ?thesis using lo hi by simp
    qed
  qed
  show ?thesis using A B C by blast
qed

text \<open>
  In exact arithmetic, on the wet one-driver race: the driver is eligible, the weather
  factor is not 1.0, the attributes lie in [0, 1], and the theorem gives the score and the
  weather impact as sums of products.
\<close>

theorem trial_performance_score_witness:
  "distinct (map d_id (drivers ex_wet_context))
   \<and> [ex_driver] = [d \<leftarrow> drivers ex_wet_context. teams_get ex_wet_context (d_current_team_id d) \<noteq> None]
   \<and> weather_factor ex_wet_context \<noteq> 1.0
   \<and> rounding (\<lambda>x. x)
   \<and> 0 \<le> d_adaptability ex_driver \<and> d_adaptability ex_driver \<le> 1
   \<and> 0 \<le> d_skill ex_driver \<and> d_skill ex_driver \<le> 1
   \<and> (\<exists>race_performance g' driver_performance.
           race_performance_loop (\<lambda>x. x) ex_wet_context (fst (initialize_race_state (\<lambda>x. x) ex_wet_context (\<lambda>_. 0)))
             (drivers ex_wet_context) [] (\<lambda>_. 0) = Inr (race_performance, g')
         \<and> driver_form (fst (initialize_race_state (\<lambda>x. x) ex_wet_context (\<lambda>_. 0))) (d_id ex_driver)
             = Some driver_performance
         \<and> map_of race_performance (d_id ex_driver) =
             Some ((0.4 * calculate_team_performance (\<lambda>x. x) ex_team + 0.3 * driver_performance
                    + 0.1 * calculate_weather_impact (\<lambda>x. x) ex_driver ex_wet_context
                    + 0.1 * calculate_track_suitability (\<lambda>x. x) ex_driver (track ex_wet_context)
                    + 0.1 * simulate_strategy_impact (\<lambda>x. x) ex_driver ex_wet_context)
                   * fst (rng_normal (\<lambda>x. x) 1.0 0.1 (\<lambda>i. 0))))
   \<and> calculate_weather_impact (\<lambda>x. x) ex_driver ex_wet_context = 0.8 + 0.2 * (0.6 * 0.6 + 0.4 * 0.9)
   \<and> 0.8 \<le> calculate_weather_impact (\<lambda>x. x) ex_driver ex_wet_context
   \<and> calculate_weather_impact (\<lambda>x. x) ex_driver ex_wet_context \<le> 1.0"
proof -
  have h1: "distinct (map d_id (drivers ex_wet_context))"
    by (simp add: ex_wet_context_def ex_context_def)
  have h3: "[ex_driver] = [d \<leftarrow> drivers ex_wet_context.
                             teams_get ex_wet_context (d_current_team_id d) \<noteq> None]"
    by (simp add: ex_wet_context_def ex_context_def ex_driver_def teams_get_def)
  have h4: "0 < length [ex_driver]" by simp
  have h5: "ex_driver = [ex_driver] ! 0" by simp
  have wet: "weather_factor ex_wet_context \<noteq> 1.0"
    by (simp add: ex_wet_context_def ex_context_def)
  have rg: "0 \<le> d_adaptability ex_driver \<and> d_adaptability ex_driver \<le> 1
            \<and> 0 \<le> d_skill ex_driver \<and> d_skill ex_driver \<le> 1"
    by (simp add: ex_driver_def)
  have tm: "teams_get ex_wet_context (d_current_team_id ex_driver) = Some ex_team"
    by (simp add: ex_wet_context_def ex_context_def ex_driver_def teams_get_def)
  have at: "d_adaptability ex_driver = 0.6" "d_skill ex_driver = 0.9"
    by (simp_all add: ex_driver_def)
  note T = trial_performance_score [of ex_wet_context _ "(\<lambda>x. x)" "\<lambda>_. 0" "[ex_driver]" 0 ex_driver
                                      "\<lambda>_. 0", OF h1 refl h3 h4 h5]
  from T [THEN conjunct1] obtain race_performance g' team driver_performance where
    a: "race_performance_loop (\<lambda>x. x) ex_wet_context (fst (initialize_race_state (\<lambda>x. x) ex_wet_context (\<lambda>_. 0)))
             (drivers ex_wet_context) [] (\<lambda>_. 0) = Inr (race_performance, g')"
    and b: "teams_get ex_wet_context (d_current_team_id ex_driver) = Some team"
    and c: "driver_form (fst (initialize_race_state (\<lambda>x. x) ex_wet_context (\<lambda>_. 0))) (d_id ex_driver)
             = Some driver_performance"
    and d: "map_of race_performance (d_id ex_driver) =
             Some ((calculate_team_performance (\<lambda>x. x) team * 0.4
                    + driver_performance * 0.3
                    + calculate_weather_impact (\<lambda>x. x) ex_driver ex_wet_context * 0.1
                    + calculate_track_suitability (\<lambda>x. x) ex_driver (track ex_wet_context) * 0.1
                    + simulate_strategy_impact (\<lambda>x. x) ex_driver ex_wet_context * 0.1)
                    * fst (rng_normal (\<lambda>x. x) 1.0 0.1 (\<lambda>i. 0)))"
    by auto
  have team: "team = ex_team" using b tm by simp
  have d': "map_of race_performance (d_id ex_driver) =
             Some ((0.4 * calculate_team_performance (\<lambda>x. x) ex_team + 0.3 * driver_performance
                    + 0.1 * calculate_weather_impact (\<lambda>x. x) ex_driver ex_wet_context
                    + 0.1 * calculate_track_suitability (\<lambda>x. x) ex_driver (track ex_wet_context)
                    + 0.1 * simulate_strategy_impact (\<lambda>x. x) ex_driver ex_wet_context)
                   * fst (rng_normal (\<lambda>x. x) 1.0 0.1 (\<lambda>i. 0)))"
    using d unfolding team by (simp add: mult.commute)
  have E: "\<exists>race_performance g' driver_performance.
           race_performance_loop (\<lambda>x. x) ex_wet_context (fst (initialize_race_state (\<lambda>x. x) ex_wet_context (\<lambda>_. 0)))
             (drivers ex_wet_context) [] (\<lambda>_. 0) = Inr (race_performance, g')
         \<and> driver_form (fst (initialize_race_state (\<lambda>x. x) ex_wet_context (\<lambda>_. 0))) (d_id ex_driver)
             = Some driver_performance
         \<and> map_of race_performance (d_id ex_driver) =
             Some ((0.4 * calculate_team_performance (\<lambda>x. x) ex_team + 0.3 * driver_performance
                    + 0.1 * calculate_weather_impact (\<lambda>x. x) ex_driver ex_wet_context
                    + 0.1 * calculate_track_suitability (\<lambda>x. x) ex_driver (track ex_wet_context)
                    + 0.1 * simulate_strategy_impact (\<lambda>x. x) ex_driver ex_wet_context)
                   * fst (rng_normal (\<lambda>x. x) 1.0 0.1 (\<lambda>i. 0)))"
    using a c d' by blast
  have W: "calculate_weather_impact (\<lambda>x. x) ex_driver ex_wet_context = 0.8 + 0.2 * (0.6 * 0.6 + 0.4 * 0.9)"
    using T [THEN conjunct2, THEN conjunct1] wet unfolding at by simp
  have R: "0.8 \<le> calculate_weather_impact (\<lambda>x. x) ex_driver ex_wet_context
   \<and> calculate_weather_impact (\<lambda>x. x) ex_driver ex_wet_context \<le> 1.0"
    using T [THEN conjunct2, THEN conjunct2] rg rounding_id by simp
  show ?thesis using h1 h3 wet rg rounding_id E W R by blast
qed

section \<open>Qualifying order\<close>

lemma precedes_Cons: "precedes xs a b \<Longrightarrow> precedes (x # xs) a b"
proof -
  assume "precedes xs a b"
  then obtain i j where "i < j" "j < length xs" "xs ! i = a" "xs ! j = b"
    unfolding precedes_def by blast
  then have "Suc i < Suc j \<and> Suc j < length (x # xs) \<and> (x # xs) ! Suc i = a \<and> (x # xs) ! Suc j = b"
    by simp
  then show ?thesis unfolding precedes_def by blast
qed

lemma precedes_head: "y \<in> set xs \<Longrightarrow> precedes (x # xs) x y"
proof -
  assume "y \<in> set xs"
  then obtain j where "j < length xs" "xs ! j = y" by (auto simp: in_set_conv_nth)
  then have "0 < Suc j \<and> Suc j < length (x # xs) \<and> (x # xs) ! 0 = x \<and> (x # xs) ! Suc j = y"
    by simp
  then show ?thesis unfolding precedes_def by blast
qed

lemma sorted_wrt_insort_key:
  assumes "sorted_wrt R ys" and "sorted (map f ys)"
    and "\<And>y. y \<in> set ys \<Longrightarrow> f x \<le> f y \<Longrightarrow> R x y"
    and "\<And>y. y \<in> set ys \<Longrightarrow> f y < f x \<Longrightarrow> R y x"
  shows "sorted_wrt R (insort_key f x ys)"
  using assms
proof (induction ys)
  case Nil
  then show ?case by simp
next
  case (Cons y ys)
  show ?case
  proof (cases "f x \<le> f y")
    case True
    have "R x z" if "z \<in> set (y # ys)" for z
    proof -
      have "f y \<le> f z" using that Cons.prems(2) by auto
      then show ?thesis using True that Cons.prems(3) by force
    qed
    then show ?thesis using True Cons.prems(1) by simp
  next
    case False
    have tail: "sorted_wrt R (insort_key f x ys)"
      using Cons.prems by (intro Cons.IH) auto
    have "R y z" if "z \<in> set (insort_key f x ys)" for z
    proof -
      have "z = x \<or> z \<in> set ys" using that by (simp add: set_insort_key)
      then show ?thesis using False Cons.prems(1,4) by auto
    qed
    then show ?thesis using False tail by simp
  qed
qed

lemma sort_key_stable_order:
  "sorted_wrt (stable_order f xs) (sort_key f xs)"
proof (induction xs)
  case Nil
  then show ?case by simp
next
  case (Cons x xs)
  have mono: "sorted_wrt (stable_order f (x # xs)) (sort_key f xs)"
    using Cons.IH
    by (rule sorted_wrt_mono_rel [rotated]) (auto simp: stable_order_def intro: precedes_Cons)
  have "sorted_wrt (stable_order f (x # xs)) (insort_key f x (sort_key f xs))"
  proof (rule sorted_wrt_insort_key [OF mono])
    show "sorted (map f (sort_key f xs))" by (rule sorted_sort_key)
  next
    fix y assume "y \<in> set (sort_key f xs)" "f x \<le> f y"
    then show "stable_order f (x # xs) x y"
      using precedes_head [of y xs x] by (auto simp: stable_order_def)
  next
    fix y assume "y \<in> set (sort_key f xs)" "f y < f x"
    then show "stable_order f (x # xs) y x" by (simp add: stable_order_def)
  qed
  then show ?case by simp
qed

lemma sort_key_positions:
  fixes f :: "'a \<Rightarrow> real"
  assumes "distinct xs" and "i < j" and "j < length xs"
  shows "\<exists>p q. p < length xs \<and> q < length xs \<and> sort_key f xs ! p = xs ! i
            \<and> sort_key f xs ! q = xs ! j \<and> p \<noteq> q \<and> (p < q \<longleftrightarrow> f (xs ! i) \<le> f (xs ! j))"
proof -
  let ?S = "sort_key f xs"
  have i: "i < length xs" using assms(2,3) by simp
  have ne: "xs ! i \<noteq> xs ! j"
    using assms i by (simp add: nth_eq_iff_index_eq)
  have "xs ! i \<in> set ?S" "xs ! j \<in> set ?S" using i assms(3) by simp_all
  then obtain p q where p: "p < length ?S" "?S ! p = xs ! i" and q: "q < length ?S" "?S ! q = xs ! j"
    by (metis in_set_conv_nth)
  have pq: "p \<noteq> q" using p q ne by auto
  have sw: "sorted_wrt (stable_order f xs) ?S" by (rule sort_key_stable_order)
  have nb: "\<not> precedes xs (xs ! j) (xs ! i)"
  proof
    assume "precedes xs (xs ! j) (xs ! i)"
    then obtain a b where ab: "a < b" "b < length xs" "xs ! a = xs ! j" "xs ! b = xs ! i"
      unfolding precedes_def by blast
    then have "a = j" "b = i"
      using assms(1,3) i by (simp_all add: nth_eq_iff_index_eq)
    then show False using ab(1) assms(2) by simp
  qed
  have "p < q \<longleftrightarrow> f (xs ! i) \<le> f (xs ! j)"
  proof
    assume "p < q"
    then have "stable_order f xs (?S ! p) (?S ! q)"
      using sw q(1) by (simp add: sorted_wrt_iff_nth_less)
    then show "f (xs ! i) \<le> f (xs ! j)" unfolding p q stable_order_def by auto
  next
    assume le: "f (xs ! i) \<le> f (xs ! j)"
    show "p < q"
    proof (rule ccontr)
      assume "\<not> p < q"
      then have "q < p" using pq by simp
      then have "stable_order f xs (?S ! q) (?S ! p)"
        using sw p(1) by (simp add: sorted_wrt_iff_nth_less)
      then show False unfolding p q stable_order_def using le nb by auto
    qed
  qed
  then show ?thesis using p q pq by auto
qed

lemma qualifying_loop_closed:
  assumes "distinct (map d_id [d \<leftarrow> ds. teams_get ctx (d_current_team_id d) \<noteq> None])"
    and "\<forall>d \<in> set ds. teams_get ctx (d_current_team_id d) \<noteq> None \<longrightarrow> d_id d \<notin> fst ` set acc"
  shows "qualifying_loop rnd ctx ds acc =
           acc @ map (\<lambda>d. (d_id d, qualifying_time rnd ctx d (the (teams_get ctx (d_current_team_id d)))))
                     [d \<leftarrow> ds. teams_get ctx (d_current_team_id d) \<noteq> None]"
  using assms
proof (induction ds arbitrary: acc)
  case Nil
  then show ?case by simp
next
  case (Cons d ds)
  show ?case
  proof (cases "teams_get ctx (d_current_team_id d)")
    case None
    then show ?thesis using Cons by simp
  next
    case (Some team)
    let ?el = "[d \<leftarrow> ds. teams_get ctx (d_current_team_id d) \<noteq> None]"
    let ?acc = "AList.update (d_id d) (qualifying_time rnd ctx d team) acc"
    have fresh: "d_id d \<notin> fst ` set acc" using Cons.prems(2) Some by simp
    have acc: "?acc = acc @ [(d_id d, qualifying_time rnd ctx d team)]"
      using fresh by (rule update_fresh)
    have d1: "distinct (map d_id ?el)" and notin: "d_id d \<notin> d_id ` set ?el"
      using Cons.prems(1) Some by auto
    have d2: "\<forall>x \<in> set ds. teams_get ctx (d_current_team_id x) \<noteq> None \<longrightarrow> d_id x \<notin> fst ` set ?acc"
    proof (intro ballI impI)
      fix x assume x: "x \<in> set ds" "teams_get ctx (d_current_team_id x) \<noteq> None"
      then have "d_id x \<in> d_id ` set ?el" by simp
      then have "d_id x \<noteq> d_id d" using notin by metis
      moreover have "d_id x \<notin> fst ` set acc" using Cons.prems(2) x by simp
      ultimately show "d_id x \<notin> fst ` set ?acc" unfolding acc by auto
    qed
    show ?thesis
      using Cons.IH [OF d1 d2] Some by (simp add: acc)
  qed
qed

lemma grid_fold_other:
  "k \<notin> fst ` set S \<Longrightarrow>
     fold (\<lambda>(position, (driver_id, _)) grid. grid(driver_id \<mapsto> int position))
          (List.enumerate n S) m k = m k"
  by (induction S arbitrary: n m) (auto simp: split_def)

lemma grid_fold_nth:
  assumes "distinct (map fst S)" and "p < length S"
  shows "fold (\<lambda>(position, (driver_id, _)) grid. grid(driver_id \<mapsto> int position))
              (List.enumerate n S) m (fst (S ! p)) = Some (int (n + p))"
  using assms
proof (induction S arbitrary: n m p)
  case Nil
  then show ?case by simp
next
  case (Cons x S)
  let ?F = "\<lambda>(position :: nat, (driver_id :: 'a, _ :: 'b)) (grid :: 'a \<rightharpoonup> int).
              grid(driver_id \<mapsto> int position)"
  have step: "fold ?F (List.enumerate n (x # S)) m
                = fold ?F (List.enumerate (Suc n) S) (m(fst x \<mapsto> int n))"
    by (cases x) simp
  show ?case
  proof (cases p)
    case 0
    have "fst x \<notin> fst ` set S" using Cons.prems(1) by auto
    then have "fold ?F (List.enumerate (Suc n) S) (m(fst x \<mapsto> int n)) (fst x)
                 = (m(fst x \<mapsto> int n)) (fst x)"
      by (rule grid_fold_other)
    then show ?thesis unfolding step 0 by simp
  next
    case (Suc p')
    then have l: "p' < length S" using Cons.prems(2) by simp
    have d: "distinct (map fst S)" using Cons.prems(1) by simp
    have "fold ?F (List.enumerate (Suc n) S) (m(fst x \<mapsto> int n)) (fst (S ! p'))
                       = Some (int (Suc n + p'))"
      by (rule Cons.IH [OF d l])
    then show ?thesis unfolding step Suc by simp
  qed
qed

lemma assign_grid_nth:
  "distinct (map fst S) \<Longrightarrow> p < length S \<Longrightarrow> assign_grid S (fst (S ! p)) = Some (int p + 1)"
  unfolding assign_grid_def using grid_fold_nth [of S p 1 Map.empty] by simp

text \<open>
  C8. The grid is the stable ascending sort of the qualifying-time estimates. For the
  drivers with a resolvable team, in the order of the input list, and distinct driver
  identifiers: both of any two such drivers get a grid position between 1 and the number
  of such drivers, the positions differ, and the driver who stands earlier in the input
  gets the lower position exactly when their estimate is not greater than the other's. So
  a smaller estimate always starts ahead, and equal estimates start in input order. The
  estimates are the values that the sort compares, each operation rounded by \<open>rnd\<close>,
  whatever \<open>rnd\<close> is: two drivers tie exactly when their rounded estimates are equal.
\<close>

theorem grid_order_stable_sort:
  assumes ids: "distinct (map d_id (drivers context))"
    and eligible: "eligible = [d \<leftarrow> drivers context. teams_get context (d_current_team_id d) \<noteq> None]"
    and time: "time = (\<lambda>d. qualifying_time rnd context d (the (teams_get context (d_current_team_id d))))"
    and grid: "grid = grid_positions (fst (initialize_race_state rnd context g))"
    and ij: "i < j" "j < length eligible"
  shows "\<exists>p q. grid (d_id (eligible ! i)) = Some p \<and> grid (d_id (eligible ! j)) = Some q
           \<and> 1 \<le> p \<and> p \<le> int (length eligible) \<and> 1 \<le> q \<and> q \<le> int (length eligible)
           \<and> p \<noteq> q \<and> (p < q \<longleftrightarrow> time (eligible ! i) \<le> time (eligible ! j))"
proof -
  let ?f = "\<lambda>d. (d_id d, time d)"
  let ?Q = "map ?f eligible"
  let ?S = "sort_key snd ?Q"
  have del: "distinct (map d_id eligible)" unfolding eligible using ids by (simp add: distinct_map_filter)
  have Q: "qualifying_loop rnd context (drivers context) [] = ?Q"
    using qualifying_loop_closed [where ds = "drivers context" and ctx = "context" and acc = "[]"] del
    unfolding eligible time by simp
  have g: "grid = assign_grid ?S" unfolding grid initialize_grid Q ..
  have kQ: "map fst ?Q = map d_id eligible" by simp
  have dkQ: "distinct (map fst ?Q)" unfolding kQ by (rule del)
  have dQ: "distinct ?Q" using dkQ by (metis distinct_map)
  have dkS: "distinct (map fst ?S)"
  proof -
    have "inj_on fst (set ?Q)" using dkQ by (metis distinct_map)
    then have "inj_on fst (set ?S)" by (metis set_sort)
    moreover have "distinct ?S" using dQ by (metis distinct_sort)
    ultimately show ?thesis by (metis distinct_map)
  qed
  have lQ: "length ?Q = length eligible" by simp
  have i: "i < length eligible" using ij by simp
  obtain p q where p: "p < length ?Q" "?S ! p = ?Q ! i" and q: "q < length ?Q" "?S ! q = ?Q ! j"
    and pq: "p \<noteq> q" and ord: "p < q \<longleftrightarrow> snd (?Q ! i) \<le> snd (?Q ! j)"
    using sort_key_positions [OF dQ ij(1), of snd] ij(2) lQ by auto
  have Qi: "?Q ! i = ?f (eligible ! i)" and Qj: "?Q ! j = ?f (eligible ! j)"
    using i ij(2) by simp_all
  have gp: "grid (d_id (eligible ! i)) = Some (int p + 1)"
    using assign_grid_nth [OF dkS, of p] p unfolding g Qi by simp
  have gq: "grid (d_id (eligible ! j)) = Some (int q + 1)"
    using assign_grid_nth [OF dkS, of q] q unfolding g Qj by simp
  have zz: "(int p + 1 < int q + 1) = (p < q)" by linarith
  have "int p + 1 < int q + 1 \<longleftrightarrow> time (eligible ! i) \<le> time (eligible ! j)"
    unfolding zz using ord unfolding Qi Qj by simp
  moreover have "1 \<le> int p + 1" "int p + 1 \<le> int (length eligible)"
    "1 \<le> int q + 1" "int q + 1 \<le> int (length eligible)" "int p + 1 \<noteq> int q + 1"
    using p(1) q(1) pq lQ by simp_all
  ultimately show ?thesis using gp gq by blast
qed

text \<open>
  The two twins have equal estimates (here in exact arithmetic, and in every other
  arithmetic, since their attributes are equal); the first of the input list starts first.
\<close>

theorem grid_order_stable_sort_witness:
  "distinct (map d_id (drivers ex_tie_context))
   \<and> [ex_driver, ex_twin_driver]
       = [d \<leftarrow> drivers ex_tie_context. teams_get ex_tie_context (d_current_team_id d) \<noteq> None]
   \<and> (0::nat) < 1 \<and> 1 < length [ex_driver, ex_twin_driver]
   \<and> qualifying_time (\<lambda>x. x) ex_tie_context ex_driver (the (teams_get ex_tie_context (d_current_team_id ex_driver)))
       = qualifying_time (\<lambda>x. x) ex_tie_context ex_twin_driver
           (the (teams_get ex_tie_context (d_current_team_id ex_twin_driver)))
   \<and> grid_positions (fst (initialize_race_state (\<lambda>x. x) ex_tie_context (\<lambda>_. 0))) (d_id ex_driver) = Some 1
   \<and> grid_positions (fst (initialize_race_state (\<lambda>x. x) ex_tie_context (\<lambda>_. 0))) (d_id ex_twin_driver) = Some 2"
proof -
  have h1: "distinct (map d_id (drivers ex_tie_context))"
    by (simp add: ex_tie_context_def ex_context_def ex_twin_driver_def ex_driver_def)
  have h2: "[ex_driver, ex_twin_driver]
       = [d \<leftarrow> drivers ex_tie_context. teams_get ex_tie_context (d_current_team_id d) \<noteq> None]"
    by (simp add: ex_tie_context_def ex_context_def ex_twin_driver_def ex_driver_def teams_get_def)
  have h5: "(0::nat) < 1" by simp
  have h6: "1 < length [ex_driver, ex_twin_driver]" by simp
  have tie: "qualifying_time (\<lambda>x. x) ex_tie_context ex_driver (the (teams_get ex_tie_context (d_current_team_id ex_driver)))
       = qualifying_time (\<lambda>x. x) ex_tie_context ex_twin_driver
           (the (teams_get ex_tie_context (d_current_team_id ex_twin_driver)))"
    by (simp add: qualifying_time_def ex_twin_driver_def ex_driver_def ex_tie_context_def
          ex_context_def teams_get_def)
  obtain p q where
    p: "grid_positions (fst (initialize_race_state (\<lambda>x. x) ex_tie_context (\<lambda>_. 0))) (d_id ex_driver) = Some p"
    and q: "grid_positions (fst (initialize_race_state (\<lambda>x. x) ex_tie_context (\<lambda>_. 0))) (d_id ex_twin_driver) = Some q"
    and b: "1 \<le> p" "q \<le> 2" and o: "p < q"
    using grid_order_stable_sort [of ex_tie_context "[ex_driver, ex_twin_driver]" _ "\<lambda>x. x" _
                                "\<lambda>_. 0" 0 1, OF h1 h2 refl refl h5 h6] tie by auto
  have "p = 1" "q = 2" using b o by simp_all
  then have p1: "grid_positions (fst (initialize_race_state (\<lambda>x. x) ex_tie_context (\<lambda>_. 0))) (d_id ex_driver) = Some 1"
    and q2: "grid_positions (fst (initialize_race_state (\<lambda>x. x) ex_tie_context (\<lambda>_. 0))) (d_id ex_twin_driver) = Some 2"
    using p q by simp_all
  show ?thesis using h1 h2 h5 h6 tie p1 q2 by blast
qed

section \<open>A field of one driver\<close>

lemma single_driver_iteration:
  assumes "drivers ctx = [d]"
    and "car_performance st (d_id d) \<noteq> None \<longrightarrow> driver_form st (d_id d) \<noteq> None"
  shows "\<exists>g'. simulate_single_race_iteration rnd ctx st g =
           Inr (if car_performance st (d_id d) = None then [] else [(d_id d, 1)], g')"
  using assms
  by (auto simp: simulate_single_race_iteration_def rng_normal_def Let_def enumerate_eq_zip
           split: option.splits)

lemma single_driver_loop:
  assumes "drivers ctx = [d]"
    and "car_performance st (d_id d) \<noteq> None \<longrightarrow> driver_form st (d_id d) \<noteq> None"
  shows "\<exists>c g'. monte_carlo_loop rnd ctx st k [(d_id d, [c0])] g = Inr ([(d_id d, [c])], g')"
proof (induction k arbitrary: c0 g)
  case 0
  show ?case by simp
next
  case (Suc k)
  obtain g1 where it: "simulate_single_race_iteration rnd ctx st g =
      Inr (if car_performance st (d_id d) = None then [] else [(d_id d, 1)], g1)"
    using single_driver_iteration [OF assms] by blast
  show ?case
  proof (cases "car_performance st (d_id d) = None")
    case True
    then show ?thesis using it Suc.IH [of c0 g1] by simp
  next
    case False
    then show ?thesis using it Suc.IH [of "Suc c0" g1] assms(1) by auto
  qed
qed

lemma argmax_single: "argmax [c] = Inr 0"
  by (simp add: argmax_def)

lemma resolve_single: "resolve_position_conflicts [(i, p)] drvs = [(i, 1)]"
  by (simp add: resolve_position_conflicts_def position_groups_def resolve_group_def
        assign_positions_def)

lemma single_driver_final_positions:
  assumes "drivers ctx = [d]"
    and "car_performance st (d_id d) \<noteq> None \<longrightarrow> driver_form st (d_id d) \<noteq> None"
  shows "\<exists>g'. run_monte_carlo_simulation rnd ctx st g = Inr ([(d_id d, 1)], g')"
proof -
  obtain c g' where "monte_carlo_loop rnd ctx st MONTE_CARLO_ITERATIONS [(d_id d, [0])] g
                      = Inr ([(d_id d, [c])], g')"
    using single_driver_loop [OF assms] by blast
  then show ?thesis
    using assms(1) by (simp add: run_monte_carlo_simulation_def argmax_single resolve_single)
qed

lemma simulate_race_single_driver:
  assumes "drivers ctx = [d]"
  shows "\<exists>g2. simulate_race rnd ctx self w =
           (case generate_race_results ctx [(d_id d, 1)] (module_random w) of
              Inl e \<Rightarrow> Inl e
            | Inr (results, r') \<Rightarrow>
                Inr (results, w\<lparr>module_random := r', rng_of := (rng_of w)(self := g2)\<rparr>))"
proof -
  obtain st g1 where init: "initialize_race_state rnd ctx (rng_of w self) = (st, g1)"
    by (cases "initialize_race_state rnd ctx (rng_of w self)")
  have "car_performance st (d_id d) \<noteq> None \<longrightarrow> driver_form st (d_id d) \<noteq> None"
    using initialize_no_key_error [of rnd ctx "rng_of w self" "d_id d"] init by simp
  then obtain g2 where "run_monte_carlo_simulation rnd ctx st g1 = Inr ([(d_id d, 1)], g2)"
    using single_driver_final_positions [OF assms] by blast
  then show ?thesis using init by (auto simp: simulate_race_def)
qed

section \<open>Positions handed out by the resolver\<close>

lemma resolver_inv_step:
  "resolver_inv (fp, cur) \<Longrightarrow> resolver_inv (AList.update i cur fp, cur + 1)"
  by (auto simp: resolver_inv_def update_conv' split: if_splits)

lemma assign_positions_inv:
  "resolver_inv st \<Longrightarrow> resolver_inv (assign_positions ids st)"
proof (induction ids arbitrary: st)
  case Nil
  then show ?case by (simp add: assign_positions_def)
next
  case (Cons i ids)
  obtain fp cur where st: "st = (fp, cur)" by (cases st)
  have "assign_positions (i # ids) st = assign_positions ids (AList.update i cur fp, cur + 1)"
    by (simp add: assign_positions_def st)
  moreover have "resolver_inv (AList.update i cur fp, cur + 1)"
    using Cons.prems unfolding st by (rule resolver_inv_step)
  ultimately show ?case using Cons.IH by simp
qed

lemma resolve_group_inv:
  "resolver_inv st \<Longrightarrow> resolver_inv (resolve_group drvs ids st)"
  unfolding resolve_group_def by (simp add: assign_positions_inv)

lemma resolve_fold_inv:
  "resolver_inv st \<Longrightarrow>
     resolver_inv (fold (\<lambda>position st. case map_of groups position of
                                           None \<Rightarrow> st
                                         | Some driver_ids \<Rightarrow> resolve_group drvs driver_ids st) ps st)"
proof (induction ps arbitrary: st)
  case Nil
  then show ?case by simp
next
  case (Cons q ps)
  show ?case
  proof (cases "map_of groups q")
    case None
    then show ?thesis using Cons.IH [OF Cons.prems] by simp
  next
    case (Some ids)
    have "resolver_inv (resolve_group drvs ids st)"
      using Cons.prems by (rule resolve_group_inv)
    then show ?thesis using Cons.IH [of "resolve_group drvs ids st"] Some by simp
  qed
qed

lemma resolve_position_conflicts_ge1:
  assumes "map_of (resolve_position_conflicts positions drvs) k = Some p"
  shows "1 \<le> p"
proof -
  have "resolver_inv ([], 1)" by (simp add: resolver_inv_def)
  then have "resolver_inv (fold (\<lambda>position st. case map_of (position_groups positions) position of
                                           None \<Rightarrow> st
                                         | Some driver_ids \<Rightarrow> resolve_group drvs driver_ids st)
                                (sort (map fst (position_groups positions))) ([], 1))"
    by (rule resolve_fold_inv)
  then show ?thesis
    using assms unfolding resolve_position_conflicts_def Let_def resolver_inv_def by blast
qed

lemma run_monte_carlo_simulation_ge1:
  "run_monte_carlo_simulation rnd ctx st g = Inr (fp, g') \<Longrightarrow> map_of fp k = Some p \<Longrightarrow> 1 \<le> p"
proof -
  assume a: "run_monte_carlo_simulation rnd ctx st g = Inr (fp, g')" and b: "map_of fp k = Some p"
  from a obtain fp0 where "fp = resolve_position_conflicts fp0 (drivers ctx)"
    unfolding run_monte_carlo_simulation_def Let_def
    by (auto split: sum.splits prod.splits)
  then show "1 \<le> p" using b resolve_position_conflicts_ge1 by blast
qed

section \<open>Result records\<close>

lemma results_loop_step:
  assumes "results_loop ctx fp (d # ds) acc = Inr rs" and "map_of fp (d_id d) = Some position"
  shows "\<exists>r. results_loop ctx fp ds (acc @ [r]) = Inr rs \<and> result_ok fp r"
proof -
  have len: "int (length points_system) = 10" by (simp add: points_system_def)
  obtain points where
    pts: "(if position \<le> 10 then py_index points_system (position - 1) else Inr 0) = Inr points"
    using assms by (simp add: len split: sum.splits)
  obtain rs0 where attr: "race_state_attr ctx = Some rs0"
    using assms pts by (simp add: len split: option.splits)
  define r where "r = \<lparr>r_id = 0, r_race_id = rc_id (race ctx), r_driver_id = d_id d,
               r_team_id = d_current_team_id d, r_position = position, r_points = points,
               r_fastest_lap = False, r_dnf_reason = None,
               r_grid_position =
                 (case (case rs0 ''grid_positions'' of None \<Rightarrow> Map.empty | Some gp \<Rightarrow> gp) (d_id d) of
                    None \<Rightarrow> position | Some p \<Rightarrow> p)\<rparr>"
  have "results_loop ctx fp ds (acc @ [r]) = Inr rs"
    using assms pts attr by (simp add: len Let_def r_def)
  moreover have "result_ok fp r"
    using assms(2) pts by (simp add: result_ok_def r_def split: if_splits)
  ultimately show ?thesis by blast
qed

lemma results_loop_inv:
  assumes "results_loop ctx fp ds acc = Inr rs" and "\<forall>r \<in> set acc. result_ok fp r"
  shows "\<forall>r \<in> set rs. result_ok fp r"
  using assms
proof (induction ds arbitrary: acc)
  case Nil
  then show ?case by simp
next
  case (Cons d ds)
  show ?case
  proof (cases "map_of fp (d_id d)")
    case None
    then have "results_loop ctx fp ds acc = Inr rs" using Cons.prems(1) by simp
    then show ?thesis using Cons.IH Cons.prems(2) by blast
  next
    case (Some position)
    obtain r where step: "results_loop ctx fp ds (acc @ [r]) = Inr rs" and ok: "result_ok fp r"
      using results_loop_step [OF Cons.prems(1) Some] by blast
    have "\<forall>q \<in> set (acc @ [r]). result_ok fp q" using Cons.prems(2) ok by simp
    then show ?thesis using Cons.IH [OF step] by blast
  qed
qed

lemma filter_update_single:
  assumes "\<forall>r \<in> set xs. \<not> P r" and "i < length xs" and "P v"
  shows "filter P (xs[i := v]) = [v]"
proof -
  have "set (take i xs) \<subseteq> set xs" "set (drop (Suc i) xs) \<subseteq> set xs"
    by (simp_all add: set_take_subset set_drop_subset)
  then have "filter P (take i xs) = []" "filter P (drop (Suc i) xs) = []"
    using assms(1) by (auto simp: filter_empty_conv)
  then show ?thesis
    using assms(2,3) by (simp add: upd_conv_take_nth_drop)
qed

lemma top_10_nonempty:
  "filter (\<lambda>i. r_position (rs ! i) \<le> 10) [0..<length rs] \<noteq> [] \<longleftrightarrow> (\<exists>r \<in> set rs. r_position r \<le> 10)"
proof
  assume "filter (\<lambda>i. r_position (rs ! i) \<le> 10) [0..<length rs] \<noteq> []"
  then obtain i where "i < length rs" "r_position (rs ! i) \<le> 10"
    by (auto simp: filter_empty_conv)
  then show "\<exists>r \<in> set rs. r_position r \<le> 10" using nth_mem by blast
next
  assume "\<exists>r \<in> set rs. r_position r \<le> 10"
  then obtain i where "i < length rs" "r_position (rs ! i) \<le> 10"
    by (auto simp: in_set_conv_nth)
  then show "filter (\<lambda>i. r_position (rs ! i) \<le> 10) [0..<length rs] \<noteq> []"
    by (auto simp: filter_empty_conv)
qed

lemma assign_fastest_lap_cases:
  assumes "assign_fastest_lap rs g = (rs', g')"
  shows "(\<not> (\<exists>r \<in> set rs. r_position r \<le> 10) \<and> rs' = rs)
       \<or> (\<exists>i. i < length rs \<and> r_position (rs ! i) \<le> 10
               \<and> rs' = rs[i := (rs ! i)\<lparr>r_fastest_lap := True, r_points := r_points (rs ! i) + 1\<rparr>])"
proof -
  let ?top = "filter (\<lambda>i. r_position (rs ! i) \<le> 10) [0..<length rs]"
  show ?thesis
  proof (cases "\<exists>r \<in> set rs. r_position r \<le> 10")
    case False
    then have top: "?top = []" using top_10_nonempty [of rs] by blast
    have "rs' = rs"
      using assms unfolding assign_fastest_lap_def Let_def top by (simp split: if_splits)
    then show ?thesis using False by simp
  next
    case True
    then have ne: "?top \<noteq> []" using top_10_nonempty [of rs] by blast
    then have rne: "rs \<noteq> []" by auto
    define k where "k = g 0 mod length ?top"
    define i where "i = ?top ! k"
    have k: "k < length ?top" unfolding k_def using ne by simp
    then have "i \<in> set ?top" unfolding i_def by (rule nth_mem)
    then have i: "i < length rs" and pi: "r_position (rs ! i) \<le> 10" by auto
    have "rs' = rs[i := (rs ! i)\<lparr>r_fastest_lap := True, r_points := r_points (rs ! i) + 1\<rparr>]"
      using assms ne rne unfolding assign_fastest_lap_def Let_def random_choice_def k_def i_def
      by simp
    then show ?thesis using i pi by blast
  qed
qed

lemma assign_fastest_lap_count:
  assumes "assign_fastest_lap rs g = (rs', g')" and "\<forall>r \<in> set rs. \<not> r_fastest_lap r"
  shows "length (filter r_fastest_lap rs') = (if \<exists>r \<in> set rs. r_position r \<le> 10 then 1 else 0)"
  using assign_fastest_lap_cases [OF assms(1)]
proof (elim disjE conjE exE)
  assume "\<not> (\<exists>r \<in> set rs. r_position r \<le> 10)" "rs' = rs"
  then show ?thesis using assms(2) by (simp add: filter_empty_conv)
next
  fix i assume i: "i < length rs" "r_position (rs ! i) \<le> 10"
    and eq: "rs' = rs[i := (rs ! i)\<lparr>r_fastest_lap := True, r_points := r_points (rs ! i) + 1\<rparr>]"
  have "filter r_fastest_lap rs' = [(rs ! i)\<lparr>r_fastest_lap := True, r_points := r_points (rs ! i) + 1\<rparr>]"
    unfolding eq by (rule filter_update_single [OF assms(2) i(1)]) simp
  moreover have "\<exists>r \<in> set rs. r_position r \<le> 10" using i nth_mem by blast
  ultimately show ?thesis by simp
qed

lemma assign_fastest_lap_elems:
  assumes "assign_fastest_lap rs g = (rs', g')" and "\<forall>r \<in> set rs. \<not> r_fastest_lap r"
    and "r' \<in> set rs'"
  shows "(r' \<in> set rs \<and> \<not> r_fastest_lap r')
            \<or> (\<exists>r \<in> set rs. r_position r \<le> 10
                   \<and> r' = r\<lparr>r_fastest_lap := True, r_points := r_points r + 1\<rparr>)"
  using assign_fastest_lap_cases [OF assms(1)]
proof (elim disjE conjE exE)
  assume "rs' = rs"
  then show ?thesis using assms(2,3) by simp
next
  fix i assume i: "i < length rs" "r_position (rs ! i) \<le> 10"
    and eq: "rs' = rs[i := (rs ! i)\<lparr>r_fastest_lap := True, r_points := r_points (rs ! i) + 1\<rparr>]"
  have "r' = (rs ! i)\<lparr>r_fastest_lap := True, r_points := r_points (rs ! i) + 1\<rparr> \<or> r' \<in> set rs"
    using assms(3) unfolding eq
    using set_update_subset_insert [of rs i] by auto
  moreover have "rs ! i \<in> set rs" using i by simp
  ultimately show ?thesis using i(2) assms(2) by blast
qed

lemma generate_race_results_split:
  assumes "generate_race_results ctx fp g = Inr (results, g')"
  shows "\<exists>rs rs'. results_loop ctx fp (drivers ctx) [] = Inr rs
           \<and> assign_fastest_lap rs g = (rs', g') \<and> results = sort_key r_position rs'"
  using assms
  by (auto simp: generate_race_results_def split: sum.splits prod.splits)

lemma simulate_race_split:
  assumes "simulate_race rnd ctx self w = Inr (results, w')"
  shows "\<exists>st g1 fp g2 r'. run_monte_carlo_simulation rnd ctx st g1 = Inr (fp, g2)
           \<and> generate_race_results ctx fp (module_random w) = Inr (results, r')"
  using assms
  by (auto simp: simulate_race_def split: sum.splits prod.splits)

lemma py_index_in_range:
  "1 \<le> p \<Longrightarrow> p \<le> int (length xs) \<Longrightarrow> py_index xs (p - 1) = Inr (xs ! nat (p - 1))"
  by (simp add: py_index_def)

section \<open>The concrete races, evaluated\<close>

lemma ex_generate_plain:
  "generate_race_results ex_context [(7, 1)] r = Inl AttributeError"
  by (simp add: generate_race_results_def ex_context_def ex_driver_def points_system_def py_index_def)

lemma ex_generate_attached:
  "generate_race_results ex_attached_context [(7, 1)] r = Inr ([ex_result], \<lambda>i. r (Suc i))"
  by (simp add: generate_race_results_def ex_attached_context_def ex_context_def ex_driver_def
        points_system_def py_index_def assign_fastest_lap_def random_choice_def ex_result_def)

lemma ex_generate_outside:
  "generate_race_results ex_attached_context [(7, 11)] r = Inr ([ex_result_outside], r)"
  by (simp add: generate_race_results_def ex_attached_context_def ex_context_def ex_driver_def
        points_system_def py_index_def assign_fastest_lap_def random_choice_def ex_result_outside_def)

lemma ex_generate_stray_plain:
  "generate_race_results ex_stray_context [(9, 1)] r = Inl AttributeError"
  by (simp add: generate_race_results_def ex_stray_context_def ex_context_def ex_stray_driver_def
        points_system_def py_index_def)

lemma ex_generate_stray_attached:
  "generate_race_results ex_stray_attached_context [(9, 1)] r
     = Inr ([ex_stray_result], \<lambda>i. r (Suc i))"
  by (simp add: generate_race_results_def ex_stray_attached_context_def ex_stray_context_def
        ex_context_def ex_stray_driver_def ex_stray_result_def
        points_system_def py_index_def assign_fastest_lap_def random_choice_def)

lemma ex_simulate_plain: "simulate_race rnd ex_context self w = Inl AttributeError"
proof -
  have d: "drivers ex_context = [ex_driver]" by (simp add: ex_context_def)
  have i: "d_id ex_driver = 7" by (simp add: ex_driver_def)
  show ?thesis
    using simulate_race_single_driver [OF d, of rnd self w] unfolding i
    by (auto simp: ex_generate_plain)
qed

lemma ex_simulate_attached:
  "\<exists>w'. simulate_race rnd ex_attached_context self w = Inr ([ex_result], w')"
proof -
  have d: "drivers ex_attached_context = [ex_driver]"
    by (simp add: ex_attached_context_def ex_context_def)
  have i: "d_id ex_driver = 7" by (simp add: ex_driver_def)
  show ?thesis
    using simulate_race_single_driver [OF d, of rnd self w] unfolding i
    by (auto simp: ex_generate_attached)
qed

lemma ex_simulate_stray_attached:
  "\<exists>w'. simulate_race rnd ex_stray_attached_context self w = Inr ([ex_stray_result], w')"
proof -
  have d: "drivers ex_stray_attached_context = [ex_stray_driver]"
    by (simp add: ex_stray_attached_context_def ex_stray_context_def ex_context_def)
  have i: "d_id ex_stray_driver = 9" by (simp add: ex_stray_driver_def)
  show ?thesis
    using simulate_race_single_driver [OF d, of rnd self w] unfolding i
    by (auto simp: ex_generate_stray_attached)
qed

lemma ex_simulate_stray_plain: "simulate_race rnd ex_stray_context self w = Inl AttributeError"
proof -
  have d: "drivers ex_stray_context = [ex_stray_driver]"
    by (simp add: ex_stray_context_def ex_context_def)
  have i: "d_id ex_stray_driver = 9" by (simp add: ex_stray_driver_def)
  show ?thesis
    using simulate_race_single_driver [OF d, of rnd self w] unfolding i
    by (auto simp: ex_generate_stray_plain)
qed

lemma ex_grid_position:
  "grid_positions (fst (initialize_race_state rnd ex_attached_context g)) 7 = Some 1"
  unfolding initialize_grid
  by (simp add: assign_grid_def ex_attached_context_def ex_context_def ex_driver_def
        teams_get_def enumerate_eq_zip)

section \<open>Points and fastest lap\<close>

text \<open>
  C5. Every record that \<^verbatim>\<open>simulate_race\<close> returns has a position of at least 1, and its
  points without the fastest-lap bonus are the entry of the table
  [25, 18, 15, 12, 10, 8, 6, 4, 2, 1] at its position for positions 1 to 10, and 0 for
  every position beyond 10.
\<close>

theorem points_from_table:
  assumes "simulate_race rnd context self w = Inr (results, w')" and "r \<in> set results"
  shows "1 \<le> r_position r
       \<and> r_points r - (if r_fastest_lap r then 1 else 0)
           = (if r_position r \<le> 10 then points_system ! nat (r_position r - 1) else 0)"
proof -
  obtain st g1 fp g2 r' where mc: "run_monte_carlo_simulation rnd context st g1 = Inr (fp, g2)"
    and gen: "generate_race_results context fp (module_random w) = Inr (results, r')"
    using simulate_race_split [OF assms(1)] by blast
  obtain rs rs' where loop: "results_loop context fp (drivers context) [] = Inr rs"
    and fl: "assign_fastest_lap rs (module_random w) = (rs', r')"
    and res: "results = sort_key r_position rs'"
    using generate_race_results_split [OF gen] by blast
  have "\<forall>r \<in> set rs. result_ok fp r"
    by (rule results_loop_inv [OF loop]) simp
  then have Q: "\<forall>r \<in> set rs. \<not> r_fastest_lap r \<and> map_of fp (r_driver_id r) = Some (r_position r)
           \<and> (if r_position r \<le> 10 then py_index points_system (r_position r - 1) = Inr (r_points r)
               else r_points r = 0)"
    unfolding result_ok_def .
  have len: "int (length points_system) = 10" by (simp add: points_system_def)
  have base: "1 \<le> r_position q \<and> r_points q
                = (if r_position q \<le> 10 then points_system ! nat (r_position q - 1) else 0)"
    if q: "q \<in> set rs" for q
  proof -
    have p1: "1 \<le> r_position q"
      using Q q run_monte_carlo_simulation_ge1 [OF mc] by blast
    show ?thesis
    proof (cases "r_position q \<le> 10")
      case True
      then have "py_index points_system (r_position q - 1) = Inr (r_points q)" using Q q by simp
      moreover have "py_index points_system (r_position q - 1)
                       = Inr (points_system ! nat (r_position q - 1))"
        using p1 True len by (intro py_index_in_range) simp_all
      ultimately show ?thesis using p1 True by simp
    next
      case False
      then show ?thesis using Q q p1 by simp
    qed
  qed
  have "r \<in> set rs'" using assms(2) res by simp
  then have "(r \<in> set rs \<and> \<not> r_fastest_lap r)
            \<or> (\<exists>q \<in> set rs. r_position q \<le> 10
                   \<and> r = q\<lparr>r_fastest_lap := True, r_points := r_points q + 1\<rparr>)"
    using assign_fastest_lap_elems [OF fl] Q by blast
  then show ?thesis
  proof
    assume "r \<in> set rs \<and> \<not> r_fastest_lap r"
    then show ?thesis using base [of r] by simp
  next
    assume "\<exists>q \<in> set rs. r_position q \<le> 10
                   \<and> r = q\<lparr>r_fastest_lap := True, r_points := r_points q + 1\<rparr>"
    then obtain q where q: "q \<in> set rs"
      "r = q\<lparr>r_fastest_lap := True, r_points := r_points q + 1\<rparr>" by blast
    then show ?thesis using base [OF q(1)] by simp
  qed
qed

theorem points_from_table_witness:
  "\<exists>results w'. simulate_race (\<lambda>x. x) ex_attached_context 0 ex_world = Inr (results, w')
     \<and> ex_result \<in> set results
     \<and> 1 \<le> r_position ex_result
     \<and> r_points ex_result - (if r_fastest_lap ex_result then 1 else 0)
         = (if r_position ex_result \<le> 10 then points_system ! nat (r_position ex_result - 1) else 0)"
proof -
  obtain w' where sim: "simulate_race (\<lambda>x. x) ex_attached_context 0 ex_world = Inr ([ex_result], w')"
    using ex_simulate_attached by blast
  have mem: "ex_result \<in> set [ex_result]" by simp
  show ?thesis using sim mem points_from_table [OF sim mem] by blast
qed

text \<open>
  C6. In every list that \<^verbatim>\<open>_generate_race_results\<close> returns (the list that
  \<^verbatim>\<open>simulate_race\<close> hands on unchanged), the number of records with the fastest-lap flag
  is 1 when some record has a position of at most 10 and 0 otherwise; a flagged record has
  a position of at most 10 and one point more than the table gives for its position.
\<close>

theorem fastest_lap_at_most_one:
  assumes "generate_race_results context final_positions g = Inr (results, g')"
  shows "length (filter r_fastest_lap results)
           = (if \<exists>r \<in> set results. r_position r \<le> 10 then 1 else 0)
       \<and> (\<forall>r \<in> set results. r_fastest_lap r \<longrightarrow>
             r_position r \<le> 10 \<and> py_index points_system (r_position r - 1) = Inr (r_points r - 1))"
proof -
  obtain rs rs' where loop: "results_loop context final_positions (drivers context) [] = Inr rs"
    and fl: "assign_fastest_lap rs g = (rs', g')"
    and res: "results = sort_key r_position rs'"
    using generate_race_results_split [OF assms] by blast
  have "\<forall>r \<in> set rs. result_ok final_positions r"
    by (rule results_loop_inv [OF loop]) simp
  then have Q: "\<forall>r \<in> set rs. \<not> r_fastest_lap r \<and> map_of final_positions (r_driver_id r) = Some (r_position r)
           \<and> (if r_position r \<le> 10 then py_index points_system (r_position r - 1) = Inr (r_points r)
               else r_points r = 0)"
    unfolding result_ok_def .
  then have unfl: "\<forall>r \<in> set rs. \<not> r_fastest_lap r" by blast
  have elems: "(r \<in> set rs \<and> \<not> r_fastest_lap r)
            \<or> (\<exists>q \<in> set rs. r_position q \<le> 10
                   \<and> r = q\<lparr>r_fastest_lap := True, r_points := r_points q + 1\<rparr>)"
    if "r \<in> set results" for r
    using assign_fastest_lap_elems [OF fl unfl, of r] that res by simp
  have cnt: "length (filter r_fastest_lap results)
               = (if \<exists>r \<in> set rs. r_position r \<le> 10 then 1 else 0)"
    unfolding res using assign_fastest_lap_count [OF fl unfl] by (simp add: filter_sort)
  have iff: "(\<exists>r \<in> set results. r_position r \<le> 10) \<longleftrightarrow> (\<exists>r \<in> set rs. r_position r \<le> 10)"
  proof
    assume "\<exists>r \<in> set results. r_position r \<le> 10"
    then obtain r where r: "r \<in> set results" "r_position r \<le> 10" by blast
    then show "\<exists>r \<in> set rs. r_position r \<le> 10" using elems [OF r(1)] by auto
  next
    assume "\<exists>r \<in> set rs. r_position r \<le> 10"
    then have "length (filter r_fastest_lap results) = 1" using cnt by simp
    then have "filter r_fastest_lap results \<noteq> []" by auto
    then obtain r where r: "r \<in> set results" "r_fastest_lap r"
      by (auto simp: filter_empty_conv)
    then have "r_position r \<le> 10" using elems [OF r(1)] by auto
    then show "\<exists>r \<in> set results. r_position r \<le> 10" using r(1) by blast
  qed
  have flagged: "r_position r \<le> 10 \<and> py_index points_system (r_position r - 1) = Inr (r_points r - 1)"
    if r: "r \<in> set results" "r_fastest_lap r" for r
  proof -
    obtain q where q: "q \<in> set rs" "r_position q \<le> 10"
      "r = q\<lparr>r_fastest_lap := True, r_points := r_points q + 1\<rparr>"
      using elems [OF r(1)] r(2) by blast
    then have "py_index points_system (r_position q - 1) = Inr (r_points q)" using Q by simp
    then show ?thesis using q by simp
  qed
  show ?thesis using cnt iff flagged by simp
qed

theorem fastest_lap_at_most_one_witness:
  "generate_race_results ex_attached_context [(7, 1)] (\<lambda>_. 0) = Inr ([ex_result], \<lambda>_. 0)
   \<and> length (filter r_fastest_lap [ex_result]) = 1
   \<and> r_fastest_lap ex_result \<and> r_position ex_result \<le> 10
   \<and> py_index points_system (r_position ex_result - 1) = Inr (r_points ex_result - 1)
   \<and> generate_race_results ex_attached_context [(7, 11)] (\<lambda>_. 0) = Inr ([ex_result_outside], \<lambda>_. 0)
   \<and> length (filter r_fastest_lap [ex_result_outside]) = 0"
proof -
  have a: "generate_race_results ex_attached_context [(7, 1)] (\<lambda>_. 0) = Inr ([ex_result], \<lambda>_. 0)"
    by (simp add: ex_generate_attached)
  have o: "generate_race_results ex_attached_context [(7, 11)] (\<lambda>_. 0) = Inr ([ex_result_outside], \<lambda>_. 0)"
    by (rule ex_generate_outside)
  have b: "r_fastest_lap ex_result" "r_position ex_result \<le> 10" "\<not> r_position ex_result_outside \<le> 10"
    by (simp_all add: ex_result_def ex_result_outside_def)
  note T1 = fastest_lap_at_most_one [OF a]
  note T2 = fastest_lap_at_most_one [OF o]
  have e1: "\<exists>r \<in> set [ex_result]. r_position r \<le> 10" using b(2) by simp
  have e2: "\<not> (\<exists>r \<in> set [ex_result_outside]. r_position r \<le> 10)" using b(3) by simp
  have c1: "length (filter r_fastest_lap [ex_result]) = 1"
    using T1 e1 by presburger
  have c2: "length (filter r_fastest_lap [ex_result_outside]) = 0"
    using T2 e2 by presburger
  have "ex_result \<in> set [ex_result]" by simp
  then have c3: "r_position ex_result \<le> 10
     \<and> py_index points_system (r_position ex_result - 1) = Inr (r_points ex_result - 1)"
    using T1 b(1) by blast
  show ?thesis using a b(1) c1 c2 c3 o by blast
qed

section \<open>Reproducibility\<close>

















section \<open>Where the engine departs from its description\<close>

text \<open>
  C1. The claim asks for one record at position 1 for a field of one eligible driver.
  On the context that the dataclass constructor builds, \<^verbatim>\<open>simulate_race\<close> raises
  \<^verbatim>\<open>AttributeError\<close>: \<^verbatim>\<open>_generate_race_results\<close> reads \<^verbatim>\<open>context.race_state\<close>, which the
  context does not have.
\<close>

theorem simulate_race_raises_attribute_error:
  "length [d \<leftarrow> drivers ex_context. teams_get ex_context (d_current_team_id d) \<noteq> None] = 1
   \<and> race_state_attr ex_context = None
   \<and> simulate_race rnd ex_context self w = Inl AttributeError"
  by (simp add: ex_simulate_plain) (simp add: ex_context_def ex_driver_def teams_get_def)

text \<open>
  C2. The claim asks that a driver without a resolvable team is left out of the result
  list. The histogram dictionary is built for every driver, so such a driver ends with an
  all-zero histogram, whose first maximum is at index 0: position 1. With the attribute
  attached the driver is returned as the winner; without it the call raises while
  building that driver's record, instead of returning the empty list.
\<close>

theorem driver_without_team_not_excluded:
  "teams_get ex_stray_attached_context (d_current_team_id ex_stray_driver) = None
   \<and> drivers ex_stray_attached_context = [ex_stray_driver]
   \<and> map_sum id fst (simulate_race rnd ex_stray_attached_context self w) = Inr [ex_stray_result]
   \<and> r_driver_id ex_stray_result = d_id ex_stray_driver
   \<and> simulate_race rnd ex_stray_context self w = Inl AttributeError"
proof -
  obtain w' where "simulate_race rnd ex_stray_attached_context self w = Inr ([ex_stray_result], w')"
    using ex_simulate_stray_attached by blast
  then show ?thesis
    by (simp add: ex_simulate_stray_plain)
       (simp add: ex_stray_attached_context_def ex_stray_context_def ex_context_def
          ex_stray_driver_def ex_stray_result_def teams_get_def)
qed

text \<open>
  C3. The claim asks for the grid position of the qualifying order. The state computed
  by \<^verbatim>\<open>_initialize_race_state\<close> puts the only driver on grid position 1, but the record
  carries what the attribute \<^verbatim>\<open>context.race_state\<close> holds (here 5), and without the
  attribute no record is built at all.
\<close>

theorem grid_position_read_from_context_attribute:
  "grid_positions (fst (initialize_race_state rnd ex_attached_context (rng_of w self))) (d_id ex_driver)
     = Some 1
   \<and> map_sum id (map (\<lambda>r. (r_driver_id r, r_grid_position r)) \<circ> fst)
        (simulate_race rnd ex_attached_context self w) = Inr [(d_id ex_driver, 5)]
   \<and> map_sum id (map (\<lambda>r. (r_driver_id r, r_grid_position r)) \<circ> fst)
        (simulate_race rnd ex_context self w) = Inl AttributeError"
proof -
  obtain w' where "simulate_race rnd ex_attached_context self w = Inr ([ex_result], w')"
    using ex_simulate_attached by blast
  moreover have "d_id ex_driver = 7" by (simp add: ex_driver_def)
  ultimately show ?thesis
    by (simp add: ex_simulate_plain ex_grid_position ex_result_def)
qed

end
